theory Spec2Isabelle
  imports Main "HOL-Library.Sublist"
begin

section \<open>Python values and exceptions\<close>

text \<open>
  The two scripts \<^verbatim>\<open>ytd.py\<close> (single videos) and \<^verbatim>\<open>ytdp.py\<close> (videos and playlists)
  read dictionaries produced by the extraction library. A numeric entry of such a
  dictionary is an integer or Python's \<^verbatim>\<open>None\<close>; a key may also be absent, which is the
  outer \<open>option\<close> of the record fields below.
\<close>

datatype pyval = PyNone | PyInt int

datatype exn =
    ValueError string
  | TypeError string
  | AttributeError string
  | EOFError string
  | OSError string
  | DownloadError string
  | Exception string

text \<open>\<^verbatim>\<open>str(e)\<close>: every exception here carries its message as its only argument.\<close>

fun str :: "exn \<Rightarrow> string" where
  "str (ValueError m) = m"
| "str (TypeError m) = m"
| "str (AttributeError m) = m"
| "str (EOFError m) = m"
| "str (OSError m) = m"
| "str (DownloadError m) = m"
| "str (Exception m) = m"

text \<open>\<^verbatim>\<open>d.get(key, default)\<close> on a key that may be absent.\<close>

definition get :: "'a option \<Rightarrow> 'a \<Rightarrow> 'a" where
  "get v dflt = (case v of None \<Rightarrow> dflt | Some x \<Rightarrow> x)"

text \<open>Truth value of a number or \<^verbatim>\<open>None\<close> in a condition.\<close>

fun truthy :: "pyval \<Rightarrow> bool" where
  "truthy PyNone = False"
| "truthy (PyInt n) = (n \<noteq> 0)"

definition quoted :: "string \<Rightarrow> string" where
  "quoted s = CHR 0x27 # s @ [CHR 0x27]"

fun type_name :: "pyval \<Rightarrow> string" where
  "type_name PyNone = ''NoneType''"
| "type_name (PyInt n) = ''int''"

text \<open>
  Ordering and addition are defined between integers only; with \<^verbatim>\<open>None\<close> on either side the
  interpreter raises \<^verbatim>\<open>TypeError\<close> (the messages are CPython's).
\<close>

definition not_supported :: "string \<Rightarrow> pyval \<Rightarrow> pyval \<Rightarrow> exn" where
  "not_supported opr a b =
     TypeError (quoted opr @ '' not supported between instances of ''
                @ quoted (type_name a) @ '' and '' @ quoted (type_name b))"

definition unsupported_operand :: "string \<Rightarrow> pyval \<Rightarrow> pyval \<Rightarrow> exn" where
  "unsupported_operand opr a b =
     TypeError (''unsupported operand type(s) for '' @ opr @ '': ''
                @ quoted (type_name a) @ '' and '' @ quoted (type_name b))"

fun py_gt :: "pyval \<Rightarrow> pyval \<Rightarrow> exn + bool" where
  "py_gt (PyInt x) (PyInt y) = Inr (y < x)"
| "py_gt a b = Inl (not_supported ''>'' a b)"

fun py_le :: "pyval \<Rightarrow> pyval \<Rightarrow> exn + bool" where
  "py_le (PyInt x) (PyInt y) = Inr (x \<le> y)"
| "py_le a b = Inl (not_supported ''<='' a b)"

fun py_add :: "string \<Rightarrow> pyval \<Rightarrow> pyval \<Rightarrow> exn + int" where
  "py_add opr (PyInt x) (PyInt y) = Inr (x + y)"
| "py_add opr a b = Inl (unsupported_operand opr a b)"

subsection \<open>Rendering numbers in f-strings\<close>

definition digit :: "nat \<Rightarrow> char" where
  "digit n = ''0123456789'' ! (n mod 10)"

function show_nat :: "nat \<Rightarrow> string" where
  "show_nat n = (if n < 10 then [digit n] else show_nat (n div 10) @ [digit n])"
  by pat_completeness auto
termination
  by (relation "measure id") auto

declare show_nat.simps [simp del]

definition show_int :: "int \<Rightarrow> string" where
  "show_int i = (if i < 0 then CHR ''-'' # show_nat (nat (- i)) else show_nat (nat i))"

fun py_str :: "pyval \<Rightarrow> string" where
  "py_str PyNone = ''None''"
| "py_str (PyInt i) = show_int i"

fun join :: "string \<Rightarrow> string list \<Rightarrow> string" where
  "join sep [] = []"
| "join sep [x] = x"
| "join sep (x # y # ys) = x @ sep @ join sep (y # ys)"

text \<open>A list of integers inside an f-string, as in \<^verbatim>\<open>[360, 480]\<close>.\<close>

definition show_list :: "int list \<Rightarrow> string" where
  "show_list xs = ''['' @ join '', '' (map show_int xs) @ '']''"

subsection \<open>Strings\<close>

text \<open>
  \<^verbatim>\<open>s.lower()\<close> on the letters A to Z; every other character is kept, which is exact for
  the question whether the result is \<^verbatim>\<open>'y'\<close> or \<^verbatim>\<open>'n'\<close>.
\<close>

definition lower_char :: "char \<Rightarrow> char" where
  "lower_char c =
     (case map_of (zip ''ABCDEFGHIJKLMNOPQRSTUVWXYZ'' ''abcdefghijklmnopqrstuvwxyz'') c of
        None \<Rightarrow> c | Some d \<Rightarrow> d)"

definition lower :: "string \<Rightarrow> string" where
  "lower s = map lower_char s"

text \<open>\<^verbatim>\<open>sub in s\<close> on strings: \<open>sub\<close> occurs in \<open>s\<close> as a contiguous piece.\<close>

fun contains :: "string \<Rightarrow> string \<Rightarrow> bool" where
  "contains sub [] = (sub = [])"
| "contains sub (c # cs) = (prefix sub (c # cs) \<or> contains sub cs)"

section \<open>The data read from the extraction library\<close>

text \<open>
  A format dictionary. \<open>vcodec\<close> and \<open>acodec\<close> are only ever compared with the string
  \<^verbatim>\<open>'none'\<close>, so an absent key and a key holding \<^verbatim>\<open>None\<close> are both \<open>None\<close> here.
\<close>

record format =
  height :: "pyval option"
  vcodec :: "string option"
  acodec :: "string option"
  filesize :: "pyval option"

record entry =
  entry_url :: "string option"
  entry_title :: "string option"

text \<open>
  The dictionary returned by \<^verbatim>\<open>extract_info\<close>. \<open>info_formats\<close> and \<open>info_entries\<close> are
  only tested for emptiness before use, so absent, \<^verbatim>\<open>None\<close> and the empty list coincide
  when the field is \<open>None\<close>. An element of \<^verbatim>\<open>entries\<close> may itself be \<^verbatim>\<open>None\<close>.
\<close>

record raw_info =
  info_title :: "string option"
  info_duration :: "pyval option"
  info_formats :: "format list option"
  info_entries :: "entry option list option"

text \<open>
  The options of the download call. \<open>format_selector\<close> is the key \<^verbatim>\<open>'format'\<close>. The keys
  left out (post-processing to mp4, buffer and chunk sizes, the other retry counts, the
  timeout, the progress hook) hold the same constants in both scripts; \<open>ignoreerrors\<close> and
  \<open>verbose\<close> are set by ytdp.py only and are \<open>False\<close> where a script does not set them.
\<close>

record ydl_opts =
  outtmpl :: string
  format_selector :: string
  merge_output_format :: string
  ignoreerrors :: bool
  verbose :: bool
  concurrent_fragments :: nat
  retries :: nat

text \<open>
  What the scripts call and do not define: the extraction library (\<^verbatim>\<open>extract_info\<close> with
  the \<^verbatim>\<open>extract_flat\<close> option and the URL, returning a dictionary, \<^verbatim>\<open>None\<close>, or raising;
  \<^verbatim>\<open>download\<close> with the options and the URL), the builtin \<^verbatim>\<open>int\<close> on a string,
  \<^verbatim>\<open>Path.mkdir\<close>, the path join of \<^verbatim>\<open>pathlib\<close> and the formatted current time.
\<close>

record env =
  extract_info :: "bool \<Rightarrow> string \<Rightarrow> exn + raw_info option"
  py_int :: "string \<Rightarrow> exn + int"
  mkdir :: "string \<Rightarrow> exn option"
  path_join :: "string \<Rightarrow> string \<Rightarrow> string"
  timestamp :: string
  download :: "ydl_opts \<Rightarrow> string \<Rightarrow> exn option"

section \<open>Loops and exception handlers\<close>

text \<open>A \<^verbatim>\<open>for\<close> loop over a list whose body may raise: the first exception ends it.\<close>

fun for_each :: "('a \<Rightarrow> 's \<Rightarrow> exn + 's) \<Rightarrow> 'a list \<Rightarrow> 's \<Rightarrow> exn + 's" where
  "for_each body [] s = Inr s"
| "for_each body (x # xs) s =
     (case body x s of Inl e \<Rightarrow> Inl e | Inr s' \<Rightarrow> for_each body xs s')"

text \<open>\<^verbatim>\<open>except Exception as e: raise Exception(f"<msg>{str(e)}")\<close>\<close>

definition reraise :: "string \<Rightarrow> exn + 'a \<Rightarrow> exn + 'a" where
  "reraise msg r = (case r of Inl e \<Rightarrow> Inl (Exception (msg @ str e)) | Inr x \<Rightarrow> Inr x)"

text \<open>
  \<^verbatim>\<open>sorted(set(f.get('height', 0) for f in formats if f.get('height')))\<close>: the heights
  that are neither absent, \<^verbatim>\<open>None\<close> nor zero, without duplicates, ascending.
\<close>

definition truthy_height :: "format \<Rightarrow> int list" where
  "truthy_height f =
     (case get (height f) PyNone of PyNone \<Rightarrow> [] | PyInt h \<Rightarrow> if h \<noteq> 0 then [h] else [])"

definition available_heights :: "format list \<Rightarrow> int list" where
  "available_heights formats = sort (remdups (concat (map truthy_height formats)))"

text \<open>The search for the audio-only format of largest size, the same in both scripts.\<close>

definition best_audio_step :: "format \<Rightarrow> format option \<Rightarrow> exn + format option" where
  "best_audio_step f best_audio_format =
     (if acodec f \<noteq> Some ''none'' \<and> vcodec f = Some ''none'' then
        (case best_audio_format of
           None \<Rightarrow> Inr (Some f)
         | Some b \<Rightarrow>
             (case py_gt (get (filesize f) (PyInt 0)) (get (filesize b) (PyInt 0)) of
                Inl e \<Rightarrow> Inl e
              | Inr bigger \<Rightarrow> Inr (if bigger then Some f else best_audio_format)))
      else Inr best_audio_format)"

definition best_audio :: "format list \<Rightarrow> exn + format option" where
  "best_audio formats = for_each best_audio_step formats None"

section \<open>ytd.py\<close>

record video_info =
  title :: string
  duration :: pyval
  size_bytes :: int
  resolution :: string

text \<open>
  The body of the first loop of \<^verbatim>\<open>get_video_info\<close>: a format whose height is set, not
  above the target and whose \<^verbatim>\<open>vcodec\<close> is not \<^verbatim>\<open>'none'\<close> replaces the best one so far when it
  is strictly higher.
\<close>

definition best_video_step :: "int \<Rightarrow> format \<Rightarrow> format option \<Rightarrow> exn + format option" where
  "best_video_step target_height f best_video_format =
     (let h = get (height f) (PyInt 0) in
      if \<not> truthy h then Inr best_video_format
      else
        (case py_le h (PyInt target_height) of
           Inl e \<Rightarrow> Inl e
         | Inr below \<Rightarrow>
             if below \<and> vcodec f \<noteq> Some ''none'' then
               (case best_video_format of
                  None \<Rightarrow> Inr (Some f)
                | Some b \<Rightarrow>
                    (case py_gt h (get (height b) (PyInt 0)) of
                       Inl e \<Rightarrow> Inl e
                     | Inr higher \<Rightarrow> Inr (if higher then Some f else best_video_format)))
             else Inr best_video_format))"

definition best_video :: "int \<Rightarrow> format list \<Rightarrow> exn + format option" where
  "best_video target_height formats = for_each (best_video_step target_height) formats None"

text \<open>
  \<^verbatim>\<open>next((h for h in available_heights if h <= target_height), available_heights[0])\<close>,
  evaluated only where the list is not empty.
\<close>

definition suggest_height :: "int list \<Rightarrow> int \<Rightarrow> int" where
  "suggest_height heights target_height =
     (case find (\<lambda>h. h \<le> target_height) heights of Some h \<Rightarrow> h | None \<Rightarrow> hd heights)"

definition no_video_format :: "string \<Rightarrow> int \<Rightarrow> format list \<Rightarrow> exn" where
  "no_video_format res target_height formats =
     (let heights = available_heights formats in
      if heights \<noteq> [] then
        ValueError (''No format found for '' @ res @ ''. Available resolutions: ''
                    @ show_list heights @ ''. Try ''
                    @ show_int (suggest_height heights target_height) @ ''p'')
      else ValueError ''No suitable video formats found'')"

text \<open>The \<^verbatim>\<open>try\<close> block of \<^verbatim>\<open>get_video_info\<close> from the dictionary on.\<close>

definition ytd_video_info :: "raw_info \<Rightarrow> string \<Rightarrow> int \<Rightarrow> exn + video_info" where
  "ytd_video_info info res target_height =
     (let formats = get (info_formats info) [] in
      if formats = [] then Inl (ValueError ''No formats available for this video'')
      else
        (case best_video target_height formats of
           Inl e \<Rightarrow> Inl e
         | Inr best_video_format \<Rightarrow>
             (case best_audio formats of
                Inl e \<Rightarrow> Inl e
              | Inr best_audio_format \<Rightarrow>
                  (case best_video_format of
                     None \<Rightarrow> Inl (no_video_format res target_height formats)
                   | Some v \<Rightarrow>
                       (let video_size = get (filesize v) (PyInt 0);
                            audio_size = (case best_audio_format of
                                            Some a \<Rightarrow> get (filesize a) (PyInt 0)
                                          | None \<Rightarrow> PyInt 0)
                        in case py_add ''+'' video_size audio_size of
                             Inl e \<Rightarrow> Inl e
                           | Inr total_size \<Rightarrow>
                               Inr \<lparr>title = get (info_title info) ''Unknown Title'',
                                    duration = get (info_duration info) (PyInt 0),
                                    size_bytes = total_size,
                                    resolution = py_str (get (height v) (PyInt 0)) @ ''p''\<rparr>)))))"

text \<open>
  \<^verbatim>\<open>int(resolution[:-1])\<close> stands before the \<^verbatim>\<open>try\<close>, so its \<^verbatim>\<open>ValueError\<close> is not
  wrapped.
\<close>

definition ytd_get_video_info :: "env \<Rightarrow> string \<Rightarrow> string \<Rightarrow> exn + video_info" where
  "ytd_get_video_info env url res =
     (case py_int env (butlast res) of
        Inl e \<Rightarrow> Inl e
      | Inr target_height \<Rightarrow>
          reraise ''Failed to get video info: ''
            (case extract_info env False url of
               Inl e \<Rightarrow> Inl e
             | Inr None \<Rightarrow> Inl (ValueError (''Could not fetch video information for '' @ url))
             | Inr (Some info) \<Rightarrow> ytd_video_info info res target_height))"

subsection \<open>The confirmation prompt and the download\<close>

text \<open>
  What a run of \<^verbatim>\<open>download_video\<close> does, in order: it shows the information, prompts,
  answers an invalid response, reports the cancellation, creates the directory, calls
  the download and reports its end.
\<close>

datatype 'i event =
    Show 'i
  | Prompt
  | Invalid_response
  | Cancelled
  | Mkdir string
  | Download ydl_opts string
  | Completed string

text \<open>
  The \<^verbatim>\<open>while True\<close> loop around \<^verbatim>\<open>input\<close>, on the lines that standard input still holds;
  \<^verbatim>\<open>input\<close> raises \<^verbatim>\<open>EOFError\<close> when there is none left.
\<close>

fun confirmation :: "string list \<Rightarrow> 'i event list \<times> (exn + string)" where
  "confirmation [] = ([Prompt], Inl (EOFError ''EOF when reading a line''))"
| "confirmation (line # rest) =
     (let response = lower line in
      if response \<in> set [''y'', ''n''] then ([Prompt], Inr response)
      else (case confirmation rest of (evs, r) \<Rightarrow> (Prompt # Invalid_response # evs, r)))"

definition download_failed :: "exn \<Rightarrow> exn" where
  "download_failed e = Exception (''Download failed: '' @ str e)"

text \<open>Everything after the information has been shown, the same in both scripts but for the options.\<close>

definition confirm_and_download ::
    "env \<Rightarrow> string \<Rightarrow> string \<Rightarrow> ydl_opts \<Rightarrow> string list \<Rightarrow> 'i event list \<times> exn option" where
  "confirm_and_download env url output_path opts inputs =
     (case confirmation inputs of
        (evs, Inl e) \<Rightarrow> (evs, Some (download_failed e))
      | (evs, Inr response) \<Rightarrow>
          if response = ''n'' then (evs @ [Cancelled], None)
          else
            (case mkdir env output_path of
               Some e \<Rightarrow> (evs @ [Mkdir output_path], Some (download_failed e))
             | None \<Rightarrow>
                 (case download env opts url of
                    Some e \<Rightarrow>
                      (evs @ [Mkdir output_path, Download opts url], Some (download_failed e))
                  | None \<Rightarrow>
                      (evs @ [Mkdir output_path, Download opts url, Completed output_path],
                       None))))"

definition ytd_opts :: "env \<Rightarrow> string \<Rightarrow> string \<Rightarrow> ydl_opts" where
  "ytd_opts env output_path res =
     \<lparr>outtmpl = path_join env output_path (''%(title)s_'' @ timestamp env @ ''.%(ext)s''),
      format_selector = ''bestvideo[height<='' @ butlast res @ '']+bestaudio/best'',
      merge_output_format = ''mp4'',
      ignoreerrors = False,
      verbose = False,
      concurrent_fragments = 16,
      retries = 10\<rparr>"

text \<open>
  \<^verbatim>\<open>download_video\<close> of ytd.py. The duration is compared with 0 for the display before
  anything is printed, which raises on \<^verbatim>\<open>None\<close>.
\<close>

definition ytd_download_video ::
    "env \<Rightarrow> string \<Rightarrow> string \<Rightarrow> string \<Rightarrow> string list \<Rightarrow> video_info event list \<times> exn option" where
  "ytd_download_video env url output_path res inputs =
     (case ytd_get_video_info env url res of
        Inl e \<Rightarrow> ([], Some (download_failed e))
      | Inr video_info \<Rightarrow>
          (case py_gt (duration video_info) (PyInt 0) of
             Inl e \<Rightarrow> ([], Some (download_failed e))
           | Inr _ \<Rightarrow>
               (case confirm_and_download env url output_path
                       (ytd_opts env output_path res) inputs of
                  (evs, r) \<Rightarrow> (Show video_info # evs, r))))"

section \<open>ytdp.py\<close>

definition find_closest_resolution :: "int list \<Rightarrow> int \<Rightarrow> int option" where
  "find_closest_resolution heights target_height =
     (if heights = [] then None
      else
        (let sorted_heights = sort heights in
         case find (\<lambda>h. h \<le> target_height) (rev sorted_heights) of
           Some h \<Rightarrow> Some h
         | None \<Rightarrow> Some (hd sorted_heights)))"

record video_info_p = video_info +
  available_resolutions :: "string list"

text \<open>
  The body of the video loop of ytdp.py: among the formats of exactly the chosen height
  whose \<^verbatim>\<open>vcodec\<close> is not \<^verbatim>\<open>'none'\<close>, the one of strictly larger size wins.
\<close>

definition closest_video_step :: "int \<Rightarrow> format \<Rightarrow> format option \<Rightarrow> exn + format option" where
  "closest_video_step target_height f best_video_format =
     (if get (height f) (PyInt 0) = PyInt target_height \<and> vcodec f \<noteq> Some ''none'' then
        (case best_video_format of
           None \<Rightarrow> Inr (Some f)
         | Some b \<Rightarrow>
             (case py_gt (get (filesize f) (PyInt 0)) (get (filesize b) (PyInt 0)) of
                Inl e \<Rightarrow> Inl e
              | Inr bigger \<Rightarrow> Inr (if bigger then Some f else best_video_format)))
      else Inr best_video_format)"

definition closest_video :: "int \<Rightarrow> format list \<Rightarrow> exn + format option" where
  "closest_video target_height formats =
     for_each (closest_video_step target_height) formats None"

text \<open>
  The branch of \<^verbatim>\<open>get_video_info\<close> for a single video, from the dictionary on. The best
  video format is read without a test for \<^verbatim>\<open>None\<close>.
\<close>

definition ytdp_video_info :: "raw_info \<Rightarrow> int \<Rightarrow> exn + video_info_p" where
  "ytdp_video_info info requested_height =
     (let formats = get (info_formats info) [] in
      if formats = [] then Inl (ValueError ''No formats available for this video'')
      else
        (let heights = available_heights formats in
         if heights = [] then
           Inl (ValueError ''No video formats with height information found'')
         else
           (case find_closest_resolution heights requested_height of
              None \<Rightarrow> Inl (ValueError ''No suitable video formats found'')
            | Some target_height \<Rightarrow>
                (case closest_video target_height formats of
                   Inl e \<Rightarrow> Inl e
                 | Inr best_video_format \<Rightarrow>
                     (case best_audio formats of
                        Inl e \<Rightarrow> Inl e
                      | Inr best_audio_format \<Rightarrow>
                          (case best_video_format of
                             None \<Rightarrow>
                               Inl (AttributeError
                                      (quoted ''NoneType'' @ '' object has no attribute ''
                                       @ quoted ''get''))
                           | Some v \<Rightarrow>
                               (let video_size = get (filesize v) (PyInt 0);
                                    audio_size = (case best_audio_format of
                                                    Some a \<Rightarrow> get (filesize a) (PyInt 0)
                                                  | None \<Rightarrow> PyInt 0)
                                in case py_add ''+'' video_size audio_size of
                                     Inl e \<Rightarrow> Inl e
                                   | Inr total_size \<Rightarrow>
                                       Inr \<lparr>title = get (info_title info) ''Unknown Title'',
                                            duration = get (info_duration info) (PyInt 0),
                                            size_bytes = total_size,
                                            resolution = show_int target_height @ ''p'',
                                            available_resolutions =
                                              map (\<lambda>h. show_int h @ ''p'') heights\<rparr>)))))))"

text \<open>
  \<^verbatim>\<open>get_video_info(url, resolution, False)\<close>, which is also what the playlist loop calls
  for every entry.
\<close>

definition ytdp_get_single :: "env \<Rightarrow> string \<Rightarrow> string \<Rightarrow> exn + video_info_p" where
  "ytdp_get_single env url res =
     (case py_int env (butlast res) of
        Inl e \<Rightarrow> Inl e
      | Inr target_height \<Rightarrow>
          reraise ''Failed to get info: ''
            (case extract_info env False url of
               Inl e \<Rightarrow> Inl e
             | Inr None \<Rightarrow> Inl (ValueError (''Could not fetch information for '' @ url))
             | Inr (Some info) \<Rightarrow> ytdp_video_info info target_height))"

subsection \<open>Playlists\<close>

record skipped_video =
  skipped_title :: string
  skipped_url :: string
  reason :: string

record playlist_info =
  playlist_title :: string
  video_count :: nat
  videos :: "video_info_p list"
  skipped_videos :: "skipped_video list"
  total_size :: int
  total_duration :: int

datatype info_result = Video video_info_p | Playlist playlist_info

text \<open>
  The four variables of the playlist loop: \<^verbatim>\<open>videos_info\<close>, \<^verbatim>\<open>total_size\<close>,
  \<^verbatim>\<open>total_duration\<close>, \<^verbatim>\<open>skipped_videos\<close>.
\<close>

type_synonym analysis = "video_info_p list \<times> int \<times> int \<times> skipped_video list"

text \<open>
  One round of the loop. An entry that is empty or has no URL changes nothing. The
  \<^verbatim>\<open>try\<close> block appends the video and adds its size before it adds the duration, so an
  exception of that last addition is handled after the first two have happened.
\<close>

definition analyze_entry :: "env \<Rightarrow> string \<Rightarrow> entry option \<Rightarrow> analysis \<Rightarrow> analysis" where
  "analyze_entry env res e st =
     (case st of (videos_info, size_total, duration_total, skipped) \<Rightarrow>
        (case e of
           None \<Rightarrow> st
         | Some ent \<Rightarrow>
             (let video_url = get (entry_url ent) [];
                  video_title = get (entry_title ent) ''Unknown Title''
              in if video_url = [] then st
                 else
                   (case ytdp_get_single env video_url res of
                      Inl ex \<Rightarrow>
                        (videos_info, size_total, duration_total,
                         skipped @ [\<lparr>skipped_title = video_title, skipped_url = video_url,
                                      reason = str ex\<rparr>])
                    | Inr video_info \<Rightarrow>
                        (case py_add ''+='' (PyInt duration_total) (duration video_info) of
                           Inl ex \<Rightarrow>
                             (videos_info @ [video_info], size_total + size_bytes video_info,
                              duration_total,
                              skipped @ [\<lparr>skipped_title = video_title,
                                           skipped_url = video_url, reason = str ex\<rparr>])
                         | Inr d \<Rightarrow>
                             (videos_info @ [video_info], size_total + size_bytes video_info,
                              d, skipped))))))"

definition analyze_playlist :: "env \<Rightarrow> string \<Rightarrow> entry option list \<Rightarrow> analysis" where
  "analyze_playlist env res entries = fold (analyze_entry env res) entries ([], 0, 0, [])"

definition ytdp_get_video_info :: "env \<Rightarrow> string \<Rightarrow> string \<Rightarrow> bool \<Rightarrow> exn + info_result" where
  "ytdp_get_video_info env url res is_playlist =
     (case py_int env (butlast res) of
        Inl e \<Rightarrow> Inl e
      | Inr target_height \<Rightarrow>
          reraise ''Failed to get info: ''
            (case extract_info env is_playlist url of
               Inl e \<Rightarrow> Inl e
             | Inr None \<Rightarrow> Inl (ValueError (''Could not fetch information for '' @ url))
             | Inr (Some info) \<Rightarrow>
                 if is_playlist then
                   (let entries = get (info_entries info) [] in
                    if entries = [] then Inl (ValueError ''No videos found in playlist'')
                    else
                      (case analyze_playlist env res entries of
                         (videos_info, size_total, duration_total, skipped) \<Rightarrow>
                           Inr (Playlist
                                  \<lparr>playlist_title = get (info_title info) ''Unknown Playlist'',
                                   video_count = length videos_info,
                                   videos = videos_info,
                                   skipped_videos = skipped,
                                   total_size = size_total,
                                   total_duration = duration_total\<rparr>)))
                 else
                   (case ytdp_video_info info target_height of
                      Inl e \<Rightarrow> Inl e
                    | Inr video_info \<Rightarrow> Inr (Video video_info))))"

subsection \<open>The download of ytdp.py\<close>

definition is_playlist_url :: "string \<Rightarrow> bool" where
  "is_playlist_url url = (contains ''playlist'' url \<or> contains ''&list='' url)"

definition ytdp_opts :: "env \<Rightarrow> string \<Rightarrow> ydl_opts" where
  "ytdp_opts env output_path =
     \<lparr>outtmpl = path_join env output_path (''%(title)s_'' @ timestamp env @ ''.%(ext)s''),
      format_selector = ''bestvideo[height<=144]+bestaudio/best'',
      merge_output_format = ''mp4'',
      ignoreerrors = True,
      verbose = True,
      concurrent_fragments = 16,
      retries = 10\<rparr>"

text \<open>
  Before the prompt, the single-video display compares the duration with 0; the playlist
  display only divides integers.
\<close>

definition ytdp_display :: "info_result \<Rightarrow> exn option" where
  "ytdp_display info =
     (case info of
        Playlist p \<Rightarrow> None
      | Video v \<Rightarrow> (case py_gt (duration v) (PyInt 0) of Inl e \<Rightarrow> Some e | Inr _ \<Rightarrow> None))"

definition ytdp_download_video ::
    "env \<Rightarrow> string \<Rightarrow> string \<Rightarrow> string \<Rightarrow> string list \<Rightarrow> info_result event list \<times> exn option" where
  "ytdp_download_video env url output_path res inputs =
     (case ytdp_get_video_info env url res (is_playlist_url url) of
        Inl e \<Rightarrow> ([], Some (download_failed e))
      | Inr info \<Rightarrow>
          (case ytdp_display info of
             Some e \<Rightarrow> ([], Some (download_failed e))
           | None \<Rightarrow>
               (case confirm_and_download env url output_path
                       (ytdp_opts env output_path) inputs of
                  (evs, r) \<Rightarrow> (Show info # evs, r))))"

section \<open>The vocabulary of the specification\<close>

text \<open>
  A format is video-capable when its \<^verbatim>\<open>vcodec\<close> is not \<^verbatim>\<open>'none'\<close>, and audio-only when it
  has an \<^verbatim>\<open>acodec\<close> and no \<^verbatim>\<open>vcodec\<close>. Its height is defined when the key holds a number
  other than zero, and its declared size is 0 when the key is missing.
\<close>

definition has_video :: "format \<Rightarrow> bool" where
  "has_video f = (vcodec f \<noteq> Some ''none'')"

definition audio_only :: "format \<Rightarrow> bool" where
  "audio_only f = (acodec f \<noteq> Some ''none'' \<and> vcodec f = Some ''none'')"

definition defined_height :: "format \<Rightarrow> int option" where
  "defined_height f =
     (case height f of Some (PyInt h) \<Rightarrow> if h \<noteq> 0 then Some h else None | _ \<Rightarrow> None)"

definition qualifies :: "int \<Rightarrow> format \<Rightarrow> bool" where
  "qualifies t g = (has_video g \<and> (\<exists>k. defined_height g = Some k \<and> k \<le> t))"

definition declared_size :: "format \<Rightarrow> int" where
  "declared_size f = (case filesize f of Some (PyInt n) \<Rightarrow> n | _ \<Rightarrow> 0)"

definition seconds :: "'a video_info_scheme \<Rightarrow> int" where
  "seconds v = (case duration v of PyInt d \<Rightarrow> d | PyNone \<Rightarrow> 0)"

text \<open>A response is valid when it is y or n in either case.\<close>

definition valid_response :: "string \<Rightarrow> bool" where
  "valid_response r = (lower r = ''y'' \<or> lower r = ''n'')"

text \<open>
  What the playlist loop makes of one entry: the information of the video, or the record
  of why it was skipped.
\<close>

definition entry_video :: "env \<Rightarrow> string \<Rightarrow> entry option \<Rightarrow> video_info_p option" where
  "entry_video env res e =
     (case e of
        None \<Rightarrow> None
      | Some ent \<Rightarrow>
          if get (entry_url ent) [] = [] then None
          else (case ytdp_get_single env (get (entry_url ent) []) res of
                  Inl ex \<Rightarrow> None
                | Inr v \<Rightarrow> Some v))"

definition entry_failure :: "env \<Rightarrow> string \<Rightarrow> entry option \<Rightarrow> skipped_video option" where
  "entry_failure env res e =
     (case e of
        None \<Rightarrow> None
      | Some ent \<Rightarrow>
          if get (entry_url ent) [] = [] then None
          else (case ytdp_get_single env (get (entry_url ent) []) res of
                  Inl ex \<Rightarrow>
                    Some \<lparr>skipped_title = get (entry_title ent) ''Unknown Title'',
                          skipped_url = get (entry_url ent) [], reason = str ex\<rparr>
                | Inr v \<Rightarrow> None))"

text \<open>
  What the loop appends to \<^verbatim>\<open>skipped_videos\<close> for an entry: the failure of the retrieval, or
  the \<^verbatim>\<open>TypeError\<close> of adding a duration that is \<^verbatim>\<open>None\<close> to the total.
\<close>

definition entry_skipped :: "env \<Rightarrow> string \<Rightarrow> entry option \<Rightarrow> skipped_video option" where
  "entry_skipped env res e =
     (case e of
        None \<Rightarrow> None
      | Some ent \<Rightarrow>
          if get (entry_url ent) [] = [] then None
          else (case ytdp_get_single env (get (entry_url ent) []) res of
                  Inl ex \<Rightarrow>
                    Some \<lparr>skipped_title = get (entry_title ent) ''Unknown Title'',
                          skipped_url = get (entry_url ent) [], reason = str ex\<rparr>
                | Inr v \<Rightarrow>
                    (case duration v of
                       PyInt d \<Rightarrow> None
                     | PyNone \<Rightarrow>
                         Some \<lparr>skipped_title = get (entry_title ent) ''Unknown Title'',
                               skipped_url = get (entry_url ent) [],
                               reason = str (unsupported_operand ''+='' (PyInt 0) PyNone)\<rparr>)))"

text \<open>
  A run with one more invalid response ahead of the others: after the information, one
  more prompt and its notice, and nothing else changes.
\<close>

definition reprompted :: "'i event list \<times> exn option \<Rightarrow> 'i event list \<times> exn option" where
  "reprompted run =
     (case run of
        ([], x) \<Rightarrow> ([], x)
      | (shown # evs, x) \<Rightarrow> (shown # Prompt # Invalid_response # evs, x))"

text \<open>
  The confirmation gate of a run, for the options and the URL it downloads with. A
  download call is the one of the script, stands after a prompt and after the creation
  of the directory and before no prompt, and the responses hold an affirmative one
  preceded by invalid ones only; a negative first valid response leaves no download and
  no directory and ends the run without an exception; an affirmative one, in a run that
  prompts at all, creates the directory and then calls the download, unless creating the
  directory raises, when no download is called; an invalid response only adds a prompt
  and its notice.
\<close>

definition gated ::
    "(string list \<Rightarrow> 'i event list \<times> exn option) \<Rightarrow> env \<Rightarrow> string \<Rightarrow> ydl_opts \<Rightarrow> string \<Rightarrow> bool" where
  "gated run env out opts url \<longleftrightarrow>
     (\<forall>inputs before opts' u after.
        fst (run inputs) = before @ Download opts' u # after \<longrightarrow>
          opts' = opts \<and> u = url \<and> Prompt \<in> set before \<and> Mkdir out \<in> set before \<and>
          Prompt \<notin> set after \<and>
          (\<exists>pre r post. inputs = pre @ r # post \<and> (\<forall>p\<in>set pre. \<not> valid_response p) \<and>
                        lower r = ''y'')) \<and>
     (\<forall>pre r post.
        (\<forall>p\<in>set pre. \<not> valid_response p) \<and> lower r = ''n'' \<longrightarrow>
          (\<forall>o' u. Download o' u \<notin> set (fst (run (pre @ r # post)))) \<and>
          (\<forall>d. Mkdir d \<notin> set (fst (run (pre @ r # post)))) \<and>
          (Prompt \<in> set (fst (run (pre @ r # post))) \<longrightarrow> snd (run (pre @ r # post)) = None)) \<and>
     (\<forall>pre r post.
        (\<forall>p\<in>set pre. \<not> valid_response p) \<and> lower r = ''y'' \<and>
        Prompt \<in> set (fst (run (pre @ r # post))) \<longrightarrow>
          Mkdir out \<in> set (fst (run (pre @ r # post))) \<and>
          (if mkdir env out = None
           then Download opts url \<in> set (fst (run (pre @ r # post)))
           else \<forall>o' u. Download o' u \<notin> set (fst (run (pre @ r # post))))) \<and>
     (\<forall>r rest. \<not> valid_response r \<longrightarrow> run (r # rest) = reprompted (run rest))"

definition has_url :: "entry option \<Rightarrow> bool" where
  "has_url e = (case e of None \<Rightarrow> False | Some ent \<Rightarrow> get (entry_url ent) [] \<noteq> [])"

section \<open>Example inputs\<close>

definition video_format :: "int \<Rightarrow> int \<Rightarrow> format" where
  "video_format h sz =
     \<lparr>height = Some (PyInt h), vcodec = Some ''avc1'', acodec = Some ''none'',
      filesize = Some (PyInt sz)\<rparr>"

definition audio_format :: "int \<Rightarrow> format" where
  "audio_format sz =
     \<lparr>height = Some (PyInt 0), vcodec = Some ''none'', acodec = Some ''mp4a'',
      filesize = Some (PyInt sz)\<rparr>"

text \<open>A format with a height and neither video nor audio, such as a sheet of preview images.\<close>

definition image_format :: "int \<Rightarrow> format" where
  "image_format h =
     \<lparr>height = Some (PyInt h), vcodec = Some ''none'', acodec = Some ''none'',
      filesize = None\<rparr>"

definition video_dict :: "format list \<Rightarrow> raw_info" where
  "video_dict fs =
     \<lparr>info_title = Some ''Clip'', info_duration = Some (PyInt 90),
      info_formats = Some fs, info_entries = None\<rparr>"

text \<open>The example of the specification: two video formats and one audio format.\<close>

definition spec_example :: "format list" where
  "spec_example =
     [video_format 1080 500000000, video_format 720 300000000, audio_format 20000000]"

definition tied_formats :: "format list" where
  "tied_formats =
     [video_format 720 7, video_format 1080 1, video_format 1080 2, video_format 1440 9,
      image_format 1080, audio_format 3, audio_format 5, audio_format 5]"

definition images_then_video :: "format list" where
  "images_then_video = [image_format 720, video_format 1080 5]"

definition images_only :: "format list" where
  "images_only = [image_format 360, image_format 480]"

text \<open>Formats whose size the library reports as \<^verbatim>\<open>None\<close>.\<close>

definition unsized_video :: "int \<Rightarrow> format" where
  "unsized_video h =
     \<lparr>height = Some (PyInt h), vcodec = Some ''avc1'', acodec = Some ''none'',
      filesize = Some PyNone\<rparr>"

definition unsized_audio :: format where
  "unsized_audio =
     \<lparr>height = Some PyNone, vcodec = Some ''none'', acodec = Some ''mp4a'',
      filesize = Some PyNone\<rparr>"

text \<open>A video whose duration the library reports as \<^verbatim>\<open>None\<close>, as for a live stream.\<close>

definition live_dict :: raw_info where
  "live_dict =
     \<lparr>info_title = Some ''Live'', info_duration = Some PyNone,
      info_formats = Some spec_example, info_entries = None\<rparr>"

definition live_playlist_entries :: "entry option list" where
  "live_playlist_entries =
     [Some \<lparr>entry_url = Some ''v/a'', entry_title = Some ''A''\<rparr>,
      Some \<lparr>entry_url = Some ''v/live'', entry_title = Some ''L''\<rparr>]"

definition live_playlist_dict :: raw_info where
  "live_playlist_dict =
     \<lparr>info_title = Some ''Mix'', info_duration = None, info_formats = None,
      info_entries = Some live_playlist_entries\<rparr>"

definition playlist_entries :: "entry option list" where
  "playlist_entries =
     [Some \<lparr>entry_url = Some ''v/a'', entry_title = Some ''A''\<rparr>,
      Some \<lparr>entry_url = Some ''v/b'', entry_title = Some ''B''\<rparr>,
      Some \<lparr>entry_url = Some ''v/c'', entry_title = None\<rparr>]"

definition playlist_dict :: raw_info where
  "playlist_dict =
     \<lparr>info_title = Some ''Mix'', info_duration = None, info_formats = None,
      info_entries = Some playlist_entries\<rparr>"

text \<open>
  A provider that knows two playlists and seven videos: the first video has the formats
  of the specification's example, the second cannot be fetched, the third has no
  formats, the fourth has preview images at 720 and video at 1080 only, the fifth has
  preview images only, the sixth has no duration, and the last is a single video whose
  URL happens to contain the word playlist. The second playlist holds the first and the
  sixth video.
\<close>

definition example_provider :: "bool \<Rightarrow> string \<Rightarrow> exn + raw_info option" where
  "example_provider flat url =
     (if url = ''playlist/p'' then Inr (Some playlist_dict)
      else if url = ''playlist/q'' then Inr (Some live_playlist_dict)
      else if url = ''v/live'' then Inr (Some live_dict)
      else if url = ''v/a'' then Inr (Some (video_dict spec_example))
      else if url = ''v/b'' then Inl (DownloadError ''Video unavailable'')
      else if url = ''v/c'' then Inr (Some (video_dict []))
      else if url = ''v/d'' then Inr (Some (video_dict images_then_video))
      else if url = ''v/e'' then Inr (Some (video_dict images_only))
      else if url = ''v/playlist-tips'' then Inr (Some (video_dict spec_example))
      else Inr None)"

text \<open>
  \<^verbatim>\<open>int\<close> on a string of decimal digits, which is all the examples pass to it.
\<close>

fun decimal_value :: "string \<Rightarrow> int \<Rightarrow> int option" where
  "decimal_value [] acc = Some acc"
| "decimal_value (c # cs) acc =
     (case map_of (zip ''0123456789'' [0, 1, 2, 3, 4, 5, 6, 7, 8, 9]) c of
        None \<Rightarrow> None
      | Some d \<Rightarrow> decimal_value cs (10 * acc + d))"

definition decimal :: "string \<Rightarrow> exn + int" where
  "decimal s =
     (case (if s = [] then None else decimal_value s 0) of
        None \<Rightarrow> Inl (ValueError (''invalid literal for int() with base 10: '' @ quoted s))
      | Some n \<Rightarrow> Inr n)"

definition example_env :: env where
  "example_env =
     \<lparr>extract_info = example_provider,
      py_int = decimal,
      mkdir = (\<lambda>p. None),
      path_join = (\<lambda>d f. d @ ''/'' @ f),
      timestamp = ''20240101_120000'',
      download = (\<lambda>opts url. None)\<rparr>"

text \<open>What the playlist of the example provider is expected to give at 1080p.\<close>

definition example_playlist_info :: playlist_info where
  "example_playlist_info =
     \<lparr>playlist_title = ''Mix'',
      video_count = 1,
      videos = [\<lparr>title = ''Clip'', duration = PyInt 90, size_bytes = 520000000,
                 resolution = ''1080p'', available_resolutions = [''720p'', ''1080p'']\<rparr>],
      skipped_videos =
        [\<lparr>skipped_title = ''B'', skipped_url = ''v/b'',
          reason = ''Failed to get info: Video unavailable''\<rparr>,
         \<lparr>skipped_title = ''Unknown Title'', skipped_url = ''v/c'',
          reason = ''Failed to get info: No formats available for this video''\<rparr>],
      total_size = 520000000,
      total_duration = 90\<rparr>"

text \<open>The same environment with an output directory that cannot be created.\<close>

definition readonly_env :: env where
  "readonly_env =
     example_env\<lparr>mkdir :=
       (\<lambda>p. Some (OSError (''[Errno 13] Permission denied: '' @ quoted p)))\<rparr>"

definition clip_video :: video_info_p where
  "clip_video =
     \<lparr>title = ''Clip'', duration = PyInt 90, size_bytes = 520000000,
      resolution = ''1080p'', available_resolutions = [''720p'', ''1080p'']\<rparr>"

definition live_video :: video_info_p where
  "live_video =
     \<lparr>title = ''Live'', duration = PyNone, size_bytes = 520000000,
      resolution = ''1080p'', available_resolutions = [''720p'', ''1080p'']\<rparr>"

text \<open>What the second playlist gives at 1080p: its second video is listed and skipped.\<close>

definition live_playlist_info :: playlist_info where
  "live_playlist_info =
     \<lparr>playlist_title = ''Mix'',
      video_count = 2,
      videos = [clip_video, live_video],
      skipped_videos =
        [\<lparr>skipped_title = ''L'', skipped_url = ''v/live'',
          reason = ''unsupported operand type(s) for +=: '' @ quoted ''int'' @ '' and ''
                   @ quoted ''NoneType''\<rparr>],
      total_size = 1040000000,
      total_duration = 90\<rparr>"

section \<open>Loops\<close>

lemma for_each_append:
  "for_each body (xs @ ys) s =
     (case for_each body xs s of Inl e \<Rightarrow> Inl e | Inr s' \<Rightarrow> for_each body ys s')"
  by (induction xs arbitrary: s) (auto split: sum.splits)

lemma for_each_snoc:
  "for_each body (xs @ [x]) s =
     (case for_each body xs s of Inl e \<Rightarrow> Inl e | Inr s' \<Rightarrow> body x s')"
  by (simp add: for_each_append split: sum.splits)

lemma find_append:
  "find P (xs @ ys) = (case find P xs of None \<Rightarrow> find P ys | Some x \<Rightarrow> Some x)"
  by (induction xs) auto

section \<open>The video loop of ytd.py\<close>

lemma best_video_step_skip:
  "\<not> qualifies t x \<Longrightarrow> best_video_step t x best = Inr best"
  by (auto simp: best_video_step_def qualifies_def has_video_def defined_height_def get_def Let_def
           split: option.splits pyval.splits)

lemma best_video_step_first:
  "qualifies t x \<Longrightarrow> best_video_step t x None = Inr (Some x)"
  by (auto simp: best_video_step_def qualifies_def has_video_def defined_height_def get_def Let_def
           split: option.splits pyval.splits if_splits)

lemma best_video_step_next:
  "qualifies t x \<Longrightarrow> defined_height x = Some k \<Longrightarrow> defined_height b = Some h \<Longrightarrow>
   best_video_step t x (Some b) = Inr (if h < k then Some x else Some b)"
  by (auto simp: best_video_step_def qualifies_def has_video_def defined_height_def get_def Let_def
           split: option.splits pyval.splits if_splits)

lemma best_video_invariant:
  "\<exists>r. best_video t xs = Inr r \<and>
     (r = None \<longleftrightarrow> (\<forall>g\<in>set xs. \<not> qualifies t g)) \<and>
     (\<forall>f. r = Some f \<longrightarrow>
        (\<exists>h. defined_height f = Some h \<and> qualifies t f \<and>
             (\<forall>g\<in>set xs. \<forall>k. qualifies t g \<and> defined_height g = Some k \<longrightarrow> k \<le> h) \<and>
             find (\<lambda>g. qualifies t g \<and> defined_height g = Some h) xs = Some f))"
proof (induction xs rule: rev_induct)
  case Nil
  show ?case by (simp add: best_video_def)
next
  case (snoc x xs)
  then obtain r where r: "best_video t xs = Inr r"
    and none: "r = None \<longleftrightarrow> (\<forall>g\<in>set xs. \<not> qualifies t g)"
    and some: "\<And>f. r = Some f \<Longrightarrow>
        \<exists>h. defined_height f = Some h \<and> qualifies t f \<and>
             (\<forall>g\<in>set xs. \<forall>k. qualifies t g \<and> defined_height g = Some k \<longrightarrow> k \<le> h) \<and>
             find (\<lambda>g. qualifies t g \<and> defined_height g = Some h) xs = Some f"
    by blast
  have step: "best_video t (xs @ [x]) = best_video_step t x r"
    using r by (simp add: best_video_def for_each_snoc)
  show ?case
  proof (cases "qualifies t x")
    case False
    then have "best_video t (xs @ [x]) = Inr r"
      using step by (simp add: best_video_step_skip)
    moreover have "r = None \<longleftrightarrow> (\<forall>g\<in>set (xs @ [x]). \<not> qualifies t g)"
      using none False by auto
    moreover have "\<exists>h. defined_height f = Some h \<and> qualifies t f \<and>
             (\<forall>g\<in>set (xs @ [x]). \<forall>k. qualifies t g \<and> defined_height g = Some k \<longrightarrow> k \<le> h) \<and>
             find (\<lambda>g. qualifies t g \<and> defined_height g = Some h) (xs @ [x]) = Some f"
      if "r = Some f" for f
    proof -
      from some [OF that] obtain h where h: "defined_height f = Some h" "qualifies t f"
        "\<forall>g\<in>set xs. \<forall>k. qualifies t g \<and> defined_height g = Some k \<longrightarrow> k \<le> h"
        "find (\<lambda>g. qualifies t g \<and> defined_height g = Some h) xs = Some f"
        by blast
      then show ?thesis using False by (auto simp: find_append)
    qed
    ultimately show ?thesis by blast
  next
    case True
    then obtain k where k: "defined_height x = Some k" "k \<le> t"
      by (auto simp: qualifies_def)
    show ?thesis
    proof (cases r)
      case None
      then have none_in: "\<forall>g\<in>set xs. \<not> qualifies t g" using none by simp
      have res: "best_video t (xs @ [x]) = Inr (Some x)"
        using step None True by (simp add: best_video_step_first)
      have "find (\<lambda>g. qualifies t g \<and> defined_height g = Some k) xs = None"
        using none_in by (auto simp: find_None_iff)
      then have "find (\<lambda>g. qualifies t g \<and> defined_height g = Some k) (xs @ [x]) = Some x"
        using True k by (simp add: find_append)
      moreover have "\<forall>g\<in>set (xs @ [x]). \<forall>j. qualifies t g \<and> defined_height g = Some j \<longrightarrow> j \<le> k"
        using none_in k by auto
      ultimately show ?thesis using res True k by auto
    next
      case (Some b)
      from some [OF Some] obtain h where h: "defined_height b = Some h" "qualifies t b"
        "\<forall>g\<in>set xs. \<forall>k. qualifies t g \<and> defined_height g = Some k \<longrightarrow> k \<le> h"
        "find (\<lambda>g. qualifies t g \<and> defined_height g = Some h) xs = Some b"
        by blast
      have res: "best_video t (xs @ [x]) = Inr (if h < k then Some x else Some b)"
        using step Some True k h by (simp add: best_video_step_next)
      show ?thesis
      proof (cases "h < k")
        case up: True
        have "find (\<lambda>g. qualifies t g \<and> defined_height g = Some k) xs = None"
          using h(3) up by (fastforce simp: find_None_iff)
        then have "find (\<lambda>g. qualifies t g \<and> defined_height g = Some k) (xs @ [x]) = Some x"
          using True k by (simp add: find_append)
        moreover have "\<forall>g\<in>set (xs @ [x]). \<forall>j. qualifies t g \<and> defined_height g = Some j \<longrightarrow> j \<le> k"
          using h(3) up k by fastforce
        ultimately show ?thesis using res up True k by auto
      next
        case keep: False
        have "find (\<lambda>g. qualifies t g \<and> defined_height g = Some h) (xs @ [x]) = Some b"
          using h(4) by (simp add: find_append)
        moreover have "\<forall>g\<in>set (xs @ [x]). \<forall>j. qualifies t g \<and> defined_height g = Some j \<longrightarrow> j \<le> h"
          using h(3) keep k by fastforce
        ultimately show ?thesis using res keep h True by auto
      qed
    qed
  qed
qed

section \<open>The audio loop\<close>

lemma best_audio_step_skip:
  "\<not> audio_only x \<Longrightarrow> best_audio_step x best = Inr best"
  by (auto simp: best_audio_step_def audio_only_def)

lemma best_audio_step_first:
  "audio_only x \<Longrightarrow> best_audio_step x None = Inr (Some x)"
  by (auto simp: best_audio_step_def audio_only_def)

lemma best_audio_step_next:
  "audio_only x \<Longrightarrow> best_audio_step x (Some b) = Inr r \<Longrightarrow>
   filesize x \<noteq> Some PyNone \<and> filesize b \<noteq> Some PyNone \<and>
   r = (if declared_size b < declared_size x then Some x else Some b)"
  by (auto simp: best_audio_step_def audio_only_def declared_size_def get_def
           split: option.splits pyval.splits if_splits sum.splits)

lemma best_audio_invariant:
  "best_audio xs = Inr r \<Longrightarrow>
     (r = None \<longleftrightarrow> (\<forall>g\<in>set xs. \<not> audio_only g)) \<and>
     (\<forall>a. r = Some a \<longrightarrow> audio_only a \<and> a \<in> set xs \<and>
        (filesize a \<noteq> Some PyNone \<longrightarrow>
           (\<forall>g\<in>set xs. audio_only g \<longrightarrow>
              filesize g \<noteq> Some PyNone \<and> declared_size g \<le> declared_size a) \<and>
           find (\<lambda>g. audio_only g \<and> declared_size g = declared_size a) xs = Some a))"
proof (induction xs arbitrary: r rule: rev_induct)
  case Nil
  then show ?case by (simp add: best_audio_def)
next
  case (snoc x xs)
  from snoc.prems obtain r0 where r0: "best_audio xs = Inr r0"
    and step: "best_audio_step x r0 = Inr r"
    by (auto simp: best_audio_def for_each_snoc split: sum.splits)
  note IH = snoc.IH [OF r0]
  show ?case
  proof (cases "audio_only x")
    case False
    then have "r = r0" using step by (simp add: best_audio_step_skip)
    then show ?thesis using IH False by (auto simp: find_append)
  next
    case True
    show ?thesis
    proof (cases r0)
      case None
      then have rx: "r = Some x" using step True by (simp add: best_audio_step_first)
      have none_in: "\<forall>g\<in>set xs. \<not> audio_only g" using IH None by simp
      then have "find (\<lambda>g. audio_only g \<and> declared_size g = declared_size x) xs = None"
        by (auto simp: find_None_iff)
      then have "find (\<lambda>g. audio_only g \<and> declared_size g = declared_size x) (xs @ [x]) = Some x"
        using True by (simp add: find_append)
      then show ?thesis using rx True none_in by auto
    next
      case (Some b)
      from best_audio_step_next [OF True step [unfolded Some]]
      have fx: "filesize x \<noteq> Some PyNone" and fb: "filesize b \<noteq> Some PyNone"
        and r: "r = (if declared_size b < declared_size x then Some x else Some b)"
        by simp_all
      from IH Some fb have b: "audio_only b" "b \<in> set xs"
        "\<forall>g\<in>set xs. audio_only g \<longrightarrow> filesize g \<noteq> Some PyNone \<and> declared_size g \<le> declared_size b"
        "find (\<lambda>g. audio_only g \<and> declared_size g = declared_size b) xs = Some b"
        by simp_all
      show ?thesis
      proof (cases "declared_size b < declared_size x")
        case up: True
        have "find (\<lambda>g. audio_only g \<and> declared_size g = declared_size x) xs = None"
          using b(3) up by (fastforce simp: find_None_iff)
        then have "find (\<lambda>g. audio_only g \<and> declared_size g = declared_size x) (xs @ [x]) = Some x"
          using True by (simp add: find_append)
        moreover have "\<forall>g\<in>set (xs @ [x]). audio_only g \<longrightarrow>
            filesize g \<noteq> Some PyNone \<and> declared_size g \<le> declared_size x"
          using b(3) up fx by fastforce
        ultimately show ?thesis using r up True by auto
      next
        case keep: False
        have "find (\<lambda>g. audio_only g \<and> declared_size g = declared_size b) (xs @ [x]) = Some b"
          using b(4) by (simp add: find_append)
        moreover have "\<forall>g\<in>set (xs @ [x]). audio_only g \<longrightarrow>
            filesize g \<noteq> Some PyNone \<and> declared_size g \<le> declared_size b"
          using b(3) keep fx by fastforce
        ultimately show ?thesis using r keep b(1,2) by auto
      qed
    qed
  qed
qed

lemma py_add_Inr:
  "py_add opr (get (filesize v) (PyInt 0)) y = Inr n \<Longrightarrow>
   filesize v \<noteq> Some PyNone \<and> (\<exists>m. y = PyInt m \<and> n = declared_size v + m)"
  by (cases "filesize v"; cases y; cases "the (filesize v)")
     (auto simp: get_def declared_size_def)

lemma get_filesize_int:
  "get (filesize a) (PyInt 0) = PyInt m \<Longrightarrow> filesize a \<noteq> Some PyNone \<and> declared_size a = m"
  by (auto simp: get_def declared_size_def split: option.splits pyval.splits)

lemma ytd_video_info_sizes:
  assumes "ytd_video_info info res t = Inr r"
  shows "\<exists>v. best_video t (get (info_formats info) []) = Inr (Some v) \<and>
             filesize v \<noteq> Some PyNone \<and>
             (if \<forall>g\<in>set (get (info_formats info) []). \<not> audio_only g
              then size_bytes r = declared_size v
              else (\<exists>a. best_audio (get (info_formats info) []) = Inr (Some a) \<and>
                     a \<in> set (get (info_formats info) []) \<and> audio_only a \<and>
                     (\<forall>g\<in>set (get (info_formats info) []). audio_only g \<longrightarrow>
                          declared_size g \<le> declared_size a) \<and>
                     find (\<lambda>g. audio_only g \<and> declared_size g = declared_size a)
                          (get (info_formats info) []) = Some a \<and>
                     size_bytes r = declared_size v + declared_size a))"
proof -
  define formats where "formats = get (info_formats info) []"
  from assms obtain v ba n where
    v: "best_video t formats = Inr (Some v)" and
    ba: "best_audio formats = Inr ba" and
    add: "py_add ''+'' (get (filesize v) (PyInt 0))
            (case ba of Some a \<Rightarrow> get (filesize a) (PyInt 0) | None \<Rightarrow> PyInt 0) = Inr n" and
    n: "size_bytes r = n"
    unfolding ytd_video_info_def formats_def [symmetric] Let_def
    by (auto split: if_splits sum.splits option.splits)
  from py_add_Inr [OF add] obtain m where
    fv: "filesize v \<noteq> Some PyNone" and
    m: "(case ba of Some a \<Rightarrow> get (filesize a) (PyInt 0) | None \<Rightarrow> PyInt 0) = PyInt m" and
    nm: "n = declared_size v + m"
    by blast
  note inv = best_audio_invariant [OF ba]
  show ?thesis
  proof (cases ba)
    case None
    then have "\<forall>g\<in>set formats. \<not> audio_only g" using inv by simp
    moreover have "size_bytes r = declared_size v" using n nm m None by simp
    ultimately show ?thesis using v fv unfolding formats_def by auto
  next
    case (Some a)
    then have ga: "get (filesize a) (PyInt 0) = PyInt m" using m by simp
    from get_filesize_int [OF ga] have fa: "filesize a \<noteq> Some PyNone" and da: "declared_size a = m"
      by simp_all
    from inv Some fa have a: "audio_only a" "a \<in> set formats"
      "\<forall>g\<in>set formats. audio_only g \<longrightarrow> declared_size g \<le> declared_size a"
      "find (\<lambda>g. audio_only g \<and> declared_size g = declared_size a) formats = Some a"
      by simp_all
    have "\<not> (\<forall>g\<in>set formats. \<not> audio_only g)" using a(1,2) by blast
    moreover have "size_bytes r = declared_size v + declared_size a" using n nm da by simp
    ultimately show ?thesis using v fv a ba Some unfolding formats_def by auto
  qed
qed

text \<open>
  Where no size is \<^verbatim>\<open>None\<close> the audio loop does not raise, and \<^verbatim>\<open>get_video_info\<close> of ytd.py
  returns as soon as one format qualifies.
\<close>

lemma best_audio_step_sized:
  "audio_only x \<Longrightarrow> filesize x \<noteq> Some PyNone \<Longrightarrow> filesize b \<noteq> Some PyNone \<Longrightarrow>
   best_audio_step x (Some b) =
     Inr (if declared_size b < declared_size x then Some x else Some b)"
  by (auto simp: best_audio_step_def audio_only_def declared_size_def get_def
           split: option.splits pyval.splits)

lemma for_each_audio_total:
  assumes "\<forall>g\<in>set xs. filesize g \<noteq> Some PyNone"
    and "\<forall>b. best = Some b \<longrightarrow> filesize b \<noteq> Some PyNone"
  shows "\<exists>r. for_each best_audio_step xs best = Inr r \<and>
             (\<forall>b. r = Some b \<longrightarrow> filesize b \<noteq> Some PyNone)"
  using assms
proof (induction xs arbitrary: best)
  case Nil
  then show ?case by simp
next
  case (Cons x xs)
  have "\<exists>s. best_audio_step x best = Inr s \<and> (\<forall>b. s = Some b \<longrightarrow> filesize b \<noteq> Some PyNone)"
  proof (cases "audio_only x")
    case False
    then show ?thesis using Cons.prems(2) by (simp add: best_audio_step_skip)
  next
    case True
    show ?thesis
    proof (cases best)
      case None
      then show ?thesis using True Cons.prems(1) by (simp add: best_audio_step_first)
    next
      case (Some b)
      then show ?thesis using True Cons.prems by (simp add: best_audio_step_sized)
    qed
  qed
  then obtain s where s: "best_audio_step x best = Inr s"
    "\<forall>b. s = Some b \<longrightarrow> filesize b \<noteq> Some PyNone"
    by blast
  from Cons.IH [of s] Cons.prems(1) s(2)
  obtain r where "for_each best_audio_step xs s = Inr r"
    "\<forall>b. r = Some b \<longrightarrow> filesize b \<noteq> Some PyNone"
    by auto
  then show ?case using s(1) by simp
qed

lemma py_add_sized:
  "filesize v \<noteq> Some PyNone \<Longrightarrow> y \<noteq> PyNone \<Longrightarrow>
   \<exists>n. py_add opr (get (filesize v) (PyInt 0)) y = Inr n"
  by (cases "filesize v"; cases y; cases "the (filesize v)") (auto simp: get_def)

lemma ytd_video_info_returns:
  assumes "\<forall>g\<in>set (get (info_formats info) []). filesize g \<noteq> Some PyNone"
    and "g \<in> set (get (info_formats info) [])" and "qualifies t g"
  shows "\<exists>r. ytd_video_info info res t = Inr r"
proof -
  let ?fs = "get (info_formats info) []"
  have ne: "?fs \<noteq> []" using assms(2) by auto
  from best_video_invariant [of t ?fs] obtain r where r: "best_video t ?fs = Inr r"
    and none: "r = None \<longleftrightarrow> (\<forall>g\<in>set ?fs. \<not> qualifies t g)"
    and some: "\<And>f. r = Some f \<Longrightarrow>
        \<exists>h. defined_height f = Some h \<and> qualifies t f \<and>
             (\<forall>g\<in>set ?fs. \<forall>k. qualifies t g \<and> defined_height g = Some k \<longrightarrow> k \<le> h) \<and>
             find (\<lambda>g. qualifies t g \<and> defined_height g = Some h) ?fs = Some f"
    by blast
  from none assms(2,3) obtain v where rv: "r = Some v" by (cases r) auto
  from some [OF rv] obtain h where
    f: "find (\<lambda>g. qualifies t g \<and> defined_height g = Some h) ?fs = Some v"
    by blast
  have v: "best_video t ?fs = Inr (Some v)" using r rv by simp
  from f have "v \<in> set ?fs" by (auto simp: find_Some_iff)
  with assms(1) have sv: "filesize v \<noteq> Some PyNone" by blast
  from for_each_audio_total [of ?fs None] assms(1)
  obtain a where a: "best_audio ?fs = Inr a" "\<forall>b. a = Some b \<longrightarrow> filesize b \<noteq> Some PyNone"
    by (auto simp: best_audio_def)
  have "(case a of Some b \<Rightarrow> get (filesize b) (PyInt 0) | None \<Rightarrow> PyInt 0) \<noteq> PyNone"
    using a(2) by (auto simp: get_def split: option.splits)
  from py_add_sized [OF sv this, of "''+''"] obtain n where
    "py_add ''+'' (get (filesize v) (PyInt 0))
       (case a of Some b \<Rightarrow> get (filesize b) (PyInt 0) | None \<Rightarrow> PyInt 0) = Inr n"
    by blast
  then show ?thesis using ne v a(1) by (simp add: ytd_video_info_def Let_def)
qed

section \<open>The playlist loop\<close>

lemma unsupported_int: "unsupported_operand opr (PyInt x) b = unsupported_operand opr (PyInt 0) b"
  by (simp add: unsupported_operand_def)

lemma analyze_entry_eq:
  "analyze_entry env res e (vs, ts, td, sk) =
     (vs @ (case entry_video env res e of None \<Rightarrow> [] | Some v \<Rightarrow> [v]),
      ts + (case entry_video env res e of None \<Rightarrow> 0 | Some v \<Rightarrow> size_bytes v),
      td + (case entry_video env res e of None \<Rightarrow> 0 | Some v \<Rightarrow> seconds v),
      sk @ (case entry_skipped env res e of None \<Rightarrow> [] | Some s \<Rightarrow> [s]))"
proof (cases e)
  case None
  then show ?thesis by (simp add: analyze_entry_def entry_video_def entry_skipped_def)
next
  case (Some ent)
  show ?thesis
  proof (cases "get (entry_url ent) [] = []")
    case True
    then show ?thesis using Some
      by (simp add: analyze_entry_def entry_video_def entry_skipped_def)
  next
    case False
    show ?thesis
    proof (cases "ytdp_get_single env (get (entry_url ent) []) res")
      case (Inl ex)
      then show ?thesis using Some False
        by (simp add: analyze_entry_def entry_video_def entry_skipped_def Let_def)
    next
      case (Inr v)
      show ?thesis
      proof (cases "duration v")
        case PyNone
        then show ?thesis using Some False Inr unsupported_int [of "''+=''" td PyNone]
          by (simp add: analyze_entry_def entry_video_def entry_skipped_def Let_def seconds_def)
      next
        case (PyInt d)
        then show ?thesis using Some False Inr
          by (simp add: analyze_entry_def entry_video_def entry_skipped_def Let_def seconds_def)
      qed
    qed
  qed
qed

lemma map_filter_Cons_app:
  "List.map_filter f (x # xs) = (case f x of None \<Rightarrow> [] | Some y \<Rightarrow> [y]) @ List.map_filter f xs"
  by (simp add: List.map_filter_simps split: option.splits)

lemma analyze_fold:
  "fold (analyze_entry env res) es (vs, ts, td, sk) =
     (vs @ List.map_filter (entry_video env res) es,
      ts + sum_list (map size_bytes (List.map_filter (entry_video env res) es)),
      td + sum_list (map seconds (List.map_filter (entry_video env res) es)),
      sk @ List.map_filter (entry_skipped env res) es)"
proof (induction es arbitrary: vs ts td sk)
  case Nil
  show ?case by (simp add: List.map_filter_simps)
next
  case (Cons e es)
  show ?case
    by (simp only: fold_Cons comp_def analyze_entry_eq Cons.IH map_filter_Cons_app)
       (simp split: option.splits)
qed

lemma analyze_playlist_eq:
  "analyze_playlist env res es =
     (List.map_filter (entry_video env res) es,
      sum_list (map size_bytes (List.map_filter (entry_video env res) es)),
      sum_list (map seconds (List.map_filter (entry_video env res) es)),
      List.map_filter (entry_skipped env res) es)"
  by (simp add: analyze_playlist_def analyze_fold)

lemma entry_skipped_failure:
  "(\<forall>v. entry_video env res e = Some v \<longrightarrow> duration v \<noteq> PyNone) \<Longrightarrow>
   entry_skipped env res e = entry_failure env res e"
proof (cases e)
  case None
  then show ?thesis by (simp add: entry_skipped_def entry_failure_def)
next
  case (Some ent)
  assume h: "\<forall>v. entry_video env res e = Some v \<longrightarrow> duration v \<noteq> PyNone"
  show ?thesis
  proof (cases "get (entry_url ent) [] = []")
    case True
    then show ?thesis using Some by (simp add: entry_skipped_def entry_failure_def)
  next
    case False
    then show ?thesis using Some h
      by (auto simp: entry_skipped_def entry_failure_def entry_video_def
               split: sum.splits pyval.splits)
  qed
qed

lemma map_filter_cong_set:
  "(\<And>x. x \<in> set xs \<Longrightarrow> f x = g x) \<Longrightarrow> List.map_filter f xs = List.map_filter g xs"
  by (induction xs) (auto simp: List.map_filter_simps split: option.splits)

lemma set_map_filter: "y \<in> set (List.map_filter f xs) \<longleftrightarrow> (\<exists>x\<in>set xs. f x = Some y)"
  by (induction xs) (auto simp: List.map_filter_simps split: option.splits)

lemma length_map_filter:
  "length (List.map_filter f xs) = length (filter (\<lambda>x. f x \<noteq> None) xs)"
  by (simp add: List.map_filter_def)

lemma playlist_result:
  assumes "py_int env (butlast res) = Inr t"
    and "extract_info env True url = Inr (Some info)"
    and "get (info_entries info) [] \<noteq> []"
  shows "ytdp_get_video_info env url res True =
     Inr (Playlist
       \<lparr>playlist_title = get (info_title info) ''Unknown Playlist'',
        video_count = length (List.map_filter (entry_video env res) (get (info_entries info) [])),
        videos = List.map_filter (entry_video env res) (get (info_entries info) []),
        skipped_videos = List.map_filter (entry_skipped env res) (get (info_entries info) []),
        total_size = sum_list (map size_bytes
           (List.map_filter (entry_video env res) (get (info_entries info) []))),
        total_duration = sum_list (map seconds
           (List.map_filter (entry_video env res) (get (info_entries info) [])))\<rparr>)"
  using assms by (simp add: ytdp_get_video_info_def reraise_def analyze_playlist_eq Let_def)

lemma playlist_result_inv:
  assumes "ytdp_get_video_info env url res True = Inr r"
    and "extract_info env True url = Inr (Some info)"
  shows "r = Playlist
       \<lparr>playlist_title = get (info_title info) ''Unknown Playlist'',
        video_count = length (List.map_filter (entry_video env res) (get (info_entries info) [])),
        videos = List.map_filter (entry_video env res) (get (info_entries info) []),
        skipped_videos = List.map_filter (entry_skipped env res) (get (info_entries info) []),
        total_size = sum_list (map size_bytes
           (List.map_filter (entry_video env res) (get (info_entries info) []))),
        total_duration = sum_list (map seconds
           (List.map_filter (entry_video env res) (get (info_entries info) [])))\<rparr>"
  using assms
  by (auto simp: ytdp_get_video_info_def reraise_def analyze_playlist_eq Let_def
           split: sum.splits if_splits)

text \<open>
  With numeric durations the summary is the one the specification describes: the videos
  are the entries that succeed and the skipped ones the entries that fail, in input
  order, each with the message of its exception; the sums hold for every summary.
\<close>

lemma playlist_counts:
  assumes "py_int env (butlast res) = Inr t"
    and "extract_info env True url = Inr (Some info)"
    and "get (info_entries info) [] = entries" and "entries \<noteq> []"
    and "\<forall>e\<in>set entries. \<forall>v. entry_video env res e = Some v \<longrightarrow> duration v \<noteq> PyNone"
  shows "\<exists>p. ytdp_get_video_info env url res True = Inr (Playlist p) \<and>
             videos p = List.map_filter (entry_video env res) entries \<and>
             skipped_videos p = List.map_filter (entry_failure env res) entries \<and>
             length (skipped_videos p) =
               length (filter (\<lambda>e. entry_failure env res e \<noteq> None) entries) \<and>
             length (videos p) =
               length (filter has_url entries)
               - length (filter (\<lambda>e. entry_failure env res e \<noteq> None) entries) \<and>
             ((\<forall>e\<in>set entries. has_url e) \<longrightarrow>
                length (videos p) =
                  length entries
                  - length (filter (\<lambda>e. entry_failure env res e \<noteq> None) entries))"
proof -
  let ?K = "length (filter (\<lambda>e. entry_failure env res e \<noteq> None) entries)"
  have sk: "List.map_filter (entry_skipped env res) entries =
            List.map_filter (entry_failure env res) entries"
    using assms(5) by (intro map_filter_cong_set entry_skipped_failure) blast
  have split: "has_url e \<longleftrightarrow> entry_video env res e \<noteq> None \<or> entry_failure env res e \<noteq> None"
    and excl: "\<not> (entry_video env res e \<noteq> None \<and> entry_failure env res e \<noteq> None)" for e
    by (auto simp: entry_video_def entry_failure_def has_url_def split: option.splits sum.splits)
  have "length (filter has_url es) =
        length (filter (\<lambda>e. entry_video env res e \<noteq> None) es) +
        length (filter (\<lambda>e. entry_failure env res e \<noteq> None) es)" for es
  proof (induction es)
    case Nil
    show ?case by simp
  next
    case (Cons e es)
    then show ?case using split [of e] excl [of e] by auto
  qed
  then have v: "length (filter (\<lambda>e. entry_video env res e \<noteq> None) entries) =
             length (filter has_url entries) - ?K"
    by simp
  have "length (filter has_url entries) = length entries" if "\<forall>e\<in>set entries. has_url e"
    using that by simp
  then show ?thesis
    using playlist_result [OF assms(1,2)] assms(3,4) sk v
    by (simp add: length_map_filter)
qed

lemma playlist_totals:
  assumes "extract_info env True url = Inr (Some info)"
    and "ytdp_get_video_info env url res True = Inr (Playlist p)"
  shows "total_size p = sum_list (map size_bytes (videos p)) \<and>
         total_duration p = sum_list (map seconds (videos p)) \<and>
         video_count p = length (videos p) \<and>
         videos p = List.map_filter (entry_video env res) (get (info_entries info) []) \<and>
         ((\<forall>v\<in>set (videos p). duration v \<noteq> PyNone) \<longrightarrow>
            skipped_videos p =
              List.map_filter (entry_failure env res) (get (info_entries info) []))"
proof -
  note p = playlist_result_inv [OF assms(2,1)]
  have "List.map_filter (entry_skipped env res) (get (info_entries info) []) =
        List.map_filter (entry_failure env res) (get (info_entries info) [])"
    if "\<forall>v\<in>set (videos p). duration v \<noteq> PyNone"
  proof (intro map_filter_cong_set entry_skipped_failure allI impI)
    fix e v
    assume "e \<in> set (get (info_entries info) [])" "entry_video env res e = Some v"
    then have "v \<in> set (videos p)" using p by (auto simp: set_map_filter)
    then show "duration v \<noteq> PyNone" using that by blast
  qed
  then show ?thesis using p by auto
qed

section \<open>The confirmation prompt\<close>

lemma valid_response_iff: "lower r \<in> set [''y'', ''n''] \<longleftrightarrow> valid_response r"
  by (auto simp: valid_response_def)

lemma confirmation_valid:
  "valid_response r \<Longrightarrow> confirmation (r # rest) = ([Prompt], Inr (lower r))"
  using valid_response_iff [of r] by (simp add: Let_def)

lemma confirmation_invalid:
  "\<not> valid_response r \<Longrightarrow>
   confirmation (r # rest) =
     (case confirmation rest of (evs, x) \<Rightarrow> (Prompt # Invalid_response # evs, x))"
  using valid_response_iff [of r] by (simp add: Let_def)

declare confirmation.simps(2) [simp del]

lemma confirmation_events:
  "set (fst (confirmation inputs :: 'i event list \<times> (exn + string))) \<subseteq> {Prompt, Invalid_response}"
proof (induction inputs)
  case Nil
  show ?case by simp
next
  case (Cons r rest)
  show ?case
  proof (cases "valid_response r")
    case True
    then show ?thesis by (simp add: confirmation_valid)
  next
    case False
    then show ?thesis using Cons.IH
      by (auto simp: confirmation_invalid split: prod.splits)
  qed
qed

lemma confirmation_head:
  "\<exists>evs. fst (confirmation inputs :: 'i event list \<times> (exn + string)) = Prompt # evs"
proof (cases inputs)
  case Nil
  then show ?thesis by simp
next
  case (Cons r rest)
  then show ?thesis
    by (cases "valid_response r")
       (auto simp: confirmation_valid confirmation_invalid split: prod.splits)
qed

lemma confirmation_answer:
  "snd (confirmation inputs :: 'i event list \<times> (exn + string)) = Inr a \<Longrightarrow>
   \<exists>pre r post. inputs = pre @ r # post \<and> (\<forall>p\<in>set pre. \<not> valid_response p) \<and>
                valid_response r \<and> a = lower r"
proof (induction inputs)
  case Nil
  then show ?case by simp
next
  case (Cons r rest)
  show ?case
  proof (cases "valid_response r")
    case True
    then have "a = lower r" using Cons.prems by (simp add: confirmation_valid)
    then have "r # rest = [] @ r # rest \<and> (\<forall>p\<in>set []. \<not> valid_response p) \<and>
               valid_response r \<and> a = lower r"
      using True by simp
    then show ?thesis by blast
  next
    case False
    then have "snd (confirmation rest :: 'i event list \<times> (exn + string)) = Inr a"
      using Cons.prems by (simp add: confirmation_invalid split: prod.splits)
    from Cons.IH [OF this] obtain pre q post where
      "rest = pre @ q # post" "\<forall>p\<in>set pre. \<not> valid_response p" "valid_response q" "a = lower q"
      by blast
    then have "r # rest = (r # pre) @ q # post \<and> (\<forall>p\<in>set (r # pre). \<not> valid_response p) \<and>
               valid_response q \<and> a = lower q"
      using False by simp
    then show ?thesis by blast
  qed
qed

lemma confirmation_skip:
  "\<forall>p\<in>set pre. \<not> valid_response p \<Longrightarrow>
   snd (confirmation (pre @ rest) :: 'i event list \<times> (exn + string)) =
   snd (confirmation rest :: 'i event list \<times> (exn + string))"
  by (induction pre) (auto simp: confirmation_invalid split: prod.splits)

lemma cad_invalid:
  "\<not> valid_response r \<Longrightarrow>
   confirm_and_download env url out opts (r # rest) =
     (case confirm_and_download env url out opts rest of
        (evs, x) \<Rightarrow> (Prompt # Invalid_response # evs, x))"
  by (simp add: confirm_and_download_def confirmation_invalid
           split: prod.splits sum.splits option.splits)

lemma cad_events:
  "confirm_and_download env url out opts inputs = (evs, x) \<Longrightarrow>
   \<exists>tail. evs = fst (confirmation inputs :: 'i event list \<times> (exn + string)) @ tail \<and>
     (tail = [] \<or> tail = [Cancelled] \<or> tail = [Mkdir out] \<or>
      tail = [Mkdir out, Download opts url] \<or>
      tail = [Mkdir out, Download opts url, Completed out])"
  by (auto simp: confirm_and_download_def split: prod.splits sum.splits option.splits if_splits)

lemma cad_download:
  assumes "Download opts' u \<in> set (fst (confirm_and_download env url out opts inputs ::
              'i event list \<times> exn option))"
  shows "opts' = opts \<and> u = url \<and>
         (\<exists>pre r post. inputs = pre @ r # post \<and> (\<forall>p\<in>set pre. \<not> valid_response p) \<and>
                       lower r = ''y'')"
proof -
  obtain evs a where c: "(confirmation inputs :: 'i event list \<times> (exn + string)) = (evs, a)"
    by (cases "confirmation inputs :: 'i event list \<times> (exn + string)")
  have evs: "set evs \<subseteq> {Prompt, Invalid_response}"
    using confirmation_events [of inputs, where 'i = 'i] c by simp
  then have no: "Download opts' u \<notin> set evs" by auto
  from assms c no obtain response where a: "a = Inr response" and "response \<noteq> ''n''"
    and "opts' = opts \<and> u = url"
    by (auto simp: confirm_and_download_def split: sum.splits option.splits if_splits)
  from confirmation_answer [of inputs response, where 'i = 'i] c a
  obtain pre r post where "inputs = pre @ r # post" "\<forall>p\<in>set pre. \<not> valid_response p"
    "valid_response r" "response = lower r"
    by auto
  with \<open>response \<noteq> ''n''\<close> have "lower r = ''y''" by (auto simp: valid_response_def)
  with \<open>inputs = pre @ r # post\<close> \<open>\<forall>p\<in>set pre. \<not> valid_response p\<close> \<open>opts' = opts \<and> u = url\<close>
  show ?thesis by blast
qed

lemma tail_after:
  assumes "tail = mid @ Download opts' u # after"
    and "tail = [] \<or> tail = [Cancelled] \<or> tail = [Mkdir out] \<or>
         tail = [Mkdir out, Download opts url] \<or>
         tail = [Mkdir out, Download opts url, Completed out]"
  shows "after = [] \<or> after = [Completed out]"
  using assms(2)
proof (elim disjE)
  assume "tail = [Mkdir out, Download opts url]"
  with assms(1) show ?thesis by (cases mid; cases "tl mid") auto
next
  assume "tail = [Mkdir out, Download opts url, Completed out]"
  with assms(1) show ?thesis by (cases mid; cases "tl mid"; cases "tl (tl mid)") auto
qed (use assms(1) in \<open>(cases mid; simp)+\<close>)

lemma cad_order:
  assumes "fst (confirm_and_download env url out opts inputs :: 'i event list \<times> exn option)
             = before @ Download opts' u # after"
  shows "Prompt \<in> set before \<and> Prompt \<notin> set after"
proof -
  obtain evs x where r: "(confirm_and_download env url out opts inputs ::
      'i event list \<times> exn option) = (evs, x)"
    by (cases "confirm_and_download env url out opts inputs :: 'i event list \<times> exn option")
  let ?c = "fst (confirmation inputs :: 'i event list \<times> (exn + string))"
  from cad_events [OF r] obtain tail where t: "evs = ?c @ tail"
    "tail = [] \<or> tail = [Cancelled] \<or> tail = [Mkdir out] \<or>
      tail = [Mkdir out, Download opts url] \<or>
      tail = [Mkdir out, Download opts url, Completed out]"
    by blast
  have c: "set ?c \<subseteq> {Prompt, Invalid_response}" by (rule confirmation_events)
  from confirmation_head [of inputs, where 'i = 'i] obtain pevs where hdc: "?c = Prompt # pevs"
    by blast
  from assms r t have eq: "?c @ tail = before @ Download opts' u # after" by simp
  have nd: "Download opts' u \<notin> set ?c" using c by auto
  from eq obtain us where
    "(?c = before @ us \<and> us @ tail = Download opts' u # after) \<or>
     (?c @ us = before \<and> tail = us @ Download opts' u # after)"
    unfolding append_eq_append_conv2 by blast
  then have "\<exists>mid. before = ?c @ mid \<and> tail = mid @ Download opts' u # after"
  proof
    assume a: "?c = before @ us \<and> us @ tail = Download opts' u # after"
    show ?thesis
    proof (cases us)
      case Nil
      with a show ?thesis by simp
    next
      case (Cons z zs)
      with a have "z = Download opts' u" by simp
      with a Cons have "Download opts' u \<in> set ?c" by simp
      with nd show ?thesis by simp
    qed
  next
    assume "?c @ us = before \<and> tail = us @ Download opts' u # after"
    then show ?thesis by blast
  qed
  then obtain mid where m: "before = ?c @ mid" "tail = mid @ Download opts' u # after"
    by blast
  from tail_after [OF m(2) t(2)] have "Prompt \<notin> set after" by auto
  moreover have "Prompt \<in> set before" using m(1) hdc by simp
  ultimately show ?thesis by simp
qed

lemma tail_mid:
  assumes "tail = mid @ Download opts' u # after"
    and "tail = [] \<or> tail = [Cancelled] \<or> tail = [Mkdir out] \<or>
         tail = [Mkdir out, Download opts url] \<or>
         tail = [Mkdir out, Download opts url, Completed out]"
  shows "mid = [Mkdir out]"
  using assms(2)
proof (elim disjE)
  assume "tail = [Mkdir out, Download opts url]"
  with assms(1) show ?thesis by (cases mid; cases "tl mid") auto
next
  assume "tail = [Mkdir out, Download opts url, Completed out]"
  with assms(1) show ?thesis by (cases mid; cases "tl mid"; cases "tl (tl mid)") auto
qed (use assms(1) in \<open>(cases mid; simp)+\<close>)

lemma cad_mkdir_before:
  assumes "fst (confirm_and_download env url out opts inputs :: 'i event list \<times> exn option)
             = before @ Download opts' u # after"
  shows "Mkdir out \<in> set before"
proof -
  obtain evs x where r: "(confirm_and_download env url out opts inputs ::
      'i event list \<times> exn option) = (evs, x)"
    by (cases "confirm_and_download env url out opts inputs :: 'i event list \<times> exn option")
  let ?c = "fst (confirmation inputs :: 'i event list \<times> (exn + string))"
  from cad_events [OF r] obtain tail where t: "evs = ?c @ tail"
    "tail = [] \<or> tail = [Cancelled] \<or> tail = [Mkdir out] \<or>
      tail = [Mkdir out, Download opts url] \<or>
      tail = [Mkdir out, Download opts url, Completed out]"
    by blast
  have c: "set ?c \<subseteq> {Prompt, Invalid_response}" by (rule confirmation_events)
  from assms r t have eq: "?c @ tail = before @ Download opts' u # after" by simp
  have nd: "Download opts' u \<notin> set ?c" using c by auto
  from eq obtain us where
    "(?c = before @ us \<and> us @ tail = Download opts' u # after) \<or>
     (?c @ us = before \<and> tail = us @ Download opts' u # after)"
    unfolding append_eq_append_conv2 by blast
  then have "\<exists>mid. before = ?c @ mid \<and> tail = mid @ Download opts' u # after"
  proof
    assume a: "?c = before @ us \<and> us @ tail = Download opts' u # after"
    show ?thesis
    proof (cases us)
      case Nil
      with a show ?thesis by simp
    next
      case (Cons z zs)
      with a have "z = Download opts' u" by simp
      with a Cons have "Download opts' u \<in> set ?c" by simp
      with nd show ?thesis by simp
    qed
  next
    assume "?c @ us = before \<and> tail = us @ Download opts' u # after"
    then show ?thesis by blast
  qed
  then obtain mid where m: "before = ?c @ mid" "tail = mid @ Download opts' u # after"
    by blast
  from tail_mid [OF m(2) t(2)] m(1) show ?thesis by simp
qed

lemma cad_yes_mkdir:
  assumes "\<forall>p\<in>set pre. \<not> valid_response p" and "lower r = ''y''"
  shows "Mkdir out \<in> set (fst (confirm_and_download env url out opts
               (pre @ r # post) :: 'i event list \<times> exn option)) \<and>
         (mkdir env out \<noteq> None \<longrightarrow>
            (\<forall>o' u. Download o' u \<notin> set (fst (confirm_and_download env url out opts
               (pre @ r # post) :: 'i event list \<times> exn option))))"
proof -
  have v: "valid_response r" using assms(2) by (simp add: valid_response_def)
  have "snd (confirmation (pre @ r # post) :: 'i event list \<times> (exn + string)) = Inr ''y''"
    using confirmation_skip [OF assms(1), of "r # post", where 'i = 'i] v assms(2)
    by (simp add: confirmation_valid)
  moreover have "set (fst (confirmation (pre @ r # post) :: 'i event list \<times> (exn + string)))
      \<subseteq> {Prompt, Invalid_response}"
    by (rule confirmation_events)
  ultimately show ?thesis
    by (auto simp: confirm_and_download_def split: prod.splits option.splits)
qed

lemma cad_no:
  assumes "\<forall>p\<in>set pre. \<not> valid_response p" and "lower r = ''n''"
  shows "snd (confirm_and_download env url out opts (pre @ r # post) ::
              'i event list \<times> exn option) = None \<and>
         (\<forall>o' u. Download o' u \<notin> set (fst (confirm_and_download env url out opts
               (pre @ r # post) :: 'i event list \<times> exn option))) \<and>
         (\<forall>d. Mkdir d \<notin> set (fst (confirm_and_download env url out opts
               (pre @ r # post) :: 'i event list \<times> exn option)))"
proof -
  have v: "valid_response r" using assms(2) by (simp add: valid_response_def)
  have "snd (confirmation (pre @ r # post) :: 'i event list \<times> (exn + string)) = Inr ''n''"
    using confirmation_skip [OF assms(1), of "r # post", where 'i = 'i] v assms(2)
    by (simp add: confirmation_valid)
  moreover have "set (fst (confirmation (pre @ r # post) :: 'i event list \<times> (exn + string)))
      \<subseteq> {Prompt, Invalid_response}"
    by (rule confirmation_events)
  ultimately show ?thesis
    by (auto simp: confirm_and_download_def split: prod.splits)
qed

lemma cad_yes:
  assumes "\<forall>p\<in>set pre. \<not> valid_response p" and "lower r = ''y''" and "mkdir env out = None"
  shows "Download opts url \<in> set (fst (confirm_and_download env url out opts
               (pre @ r # post) :: 'i event list \<times> exn option))"
proof -
  have v: "valid_response r" using assms(2) by (simp add: valid_response_def)
  have "snd (confirmation (pre @ r # post) :: 'i event list \<times> (exn + string)) = Inr ''y''"
    using confirmation_skip [OF assms(1), of "r # post", where 'i = 'i] v assms(2)
    by (simp add: confirmation_valid)
  then show ?thesis using assms(3)
    by (auto simp: confirm_and_download_def split: prod.splits option.splits)
qed

section \<open>Substrings\<close>

lemma contains_iff: "contains sub s \<longleftrightarrow> (\<exists>p q. s = p @ sub @ q)"
proof (induction s)
  case Nil
  then show ?case by auto
next
  case (Cons c cs)
  show ?case
  proof
    assume "contains sub (c # cs)"
    then consider "prefix sub (c # cs)" | "contains sub cs" by auto
    then show "\<exists>p q. c # cs = p @ sub @ q"
    proof cases
      case 1
      then obtain q where "c # cs = sub @ q" by (auto simp: prefix_def)
      then have "c # cs = [] @ sub @ q" by simp
      then show ?thesis by blast
    next
      case 2
      with Cons.IH obtain p q where "cs = p @ sub @ q" by blast
      then have "c # cs = (c # p) @ sub @ q" by simp
      then show ?thesis by blast
    qed
  next
    assume "\<exists>p q. c # cs = p @ sub @ q"
    then obtain p q where e: "c # cs = p @ sub @ q" by blast
    show "contains sub (c # cs)"
    proof (cases p)
      case Nil
      with e have "prefix sub (c # cs)" by (simp add: prefix_def)
      then show ?thesis by simp
    next
      case (Cons a p')
      with e have "cs = p' @ sub @ q" by simp
      with Cons.IH have "contains sub cs" by blast
      then show ?thesis by simp
    qed
  qed
qed

section \<open>The examples, evaluated\<close>

lemma example_single_a:
  "ytdp_get_single example_env ''v/a'' ''1080p'' =
     Inr \<lparr>title = ''Clip'', duration = PyInt 90, size_bytes = 520000000,
          resolution = ''1080p'', available_resolutions = [''720p'', ''1080p'']\<rparr>"
  by code_simp

lemma example_single_b:
  "ytdp_get_single example_env ''v/b'' ''1080p'' =
     Inl (Exception ''Failed to get info: Video unavailable'')"
  by code_simp

lemma example_single_c:
  "ytdp_get_single example_env ''v/c'' ''1080p'' =
     Inl (Exception ''Failed to get info: No formats available for this video'')"
  by code_simp

lemma example_playlist:
  "ytdp_get_video_info example_env ''playlist/p'' ''1080p'' True =
     Inr (Playlist example_playlist_info)"
  by code_simp

lemma example_ytd_a:
  "ytd_get_video_info example_env ''v/a'' ''1080p'' =
     Inr \<lparr>title = ''Clip'', duration = PyInt 90, size_bytes = 520000000,
          resolution = ''1080p''\<rparr>"
  by code_simp

lemma example_playlist_run:
  "ytdp_download_video example_env ''playlist/p'' ''out'' ''1080p'' [''maybe'', ''Y'', ''n''] =
     ([Show (Playlist example_playlist_info), Prompt, Invalid_response, Prompt, Mkdir ''out'',
       Download (ytdp_opts example_env ''out'') ''playlist/p'', Completed ''out''], None)"
  by code_simp

lemma example_run_p:
  "fst (ytdp_download_video example_env ''v/a'' ''out'' ''1080p'' [''y'']) =
     [Show (Video \<lparr>title = ''Clip'', duration = PyInt 90, size_bytes = 520000000,
          resolution = ''1080p'', available_resolutions = [''720p'', ''1080p'']\<rparr>), Prompt,
      Mkdir ''out'', Download (ytdp_opts example_env ''out'') ''v/a'', Completed ''out'']"
  by code_simp

lemma example_run:
  "fst (ytd_download_video example_env ''v/a'' ''out'' ''1080p'' [''y'']) =
     [Show \<lparr>title = ''Clip'', duration = PyInt 90, size_bytes = 520000000,
          resolution = ''1080p''\<rparr>, Prompt,
      Mkdir ''out'', Download (ytd_opts example_env ''out'' ''1080p'') ''v/a'', Completed ''out'']"
  by code_simp

lemma example_tied: "best_video 1080 tied_formats = Inr (Some (video_format 1080 1))"
  by code_simp

lemma example_spec:
  "ytd_video_info (video_dict spec_example) ''1080p'' 1080 =
     Inr \<lparr>title = ''Clip'', duration = PyInt 90, size_bytes = 520000000,
          resolution = ''1080p''\<rparr>"
  by code_simp

lemma example_single_live:
  "ytdp_get_single example_env ''v/live'' ''1080p'' = Inr live_video"
  by code_simp

lemma example_clip: "ytdp_get_single example_env ''v/a'' ''1080p'' = Inr clip_video"
  by code_simp

lemma example_live_playlist:
  "ytdp_get_video_info example_env ''playlist/q'' ''1080p'' True =
     Inr (Playlist live_playlist_info)"
  by code_simp

lemma example_readonly:
  "ytd_download_video readonly_env ''v/a'' ''out'' ''1080p'' [''y''] =
     ([Show \<lparr>title = ''Clip'', duration = PyInt 90, size_bytes = 520000000,
             resolution = ''1080p''\<rparr>,
       Prompt, Mkdir ''out''],
      Some (Exception (''Download failed: [Errno 13] Permission denied: '' @ quoted ''out'')))"
  by code_simp

lemma example_tied_sizes:
  "ytd_video_info (video_dict tied_formats) ''1080p'' 1080 =
     Inr \<lparr>title = ''Clip'', duration = PyInt 90, size_bytes = 6, resolution = ''1080p''\<rparr>"
  by code_simp

lemma example_unsized_video:
  "ytd_video_info (video_dict [unsized_video 720]) ''720p'' 720 =
     Inl (TypeError (''unsupported operand type(s) for +: '' @ quoted ''NoneType''
                     @ '' and '' @ quoted ''int''))"
  by code_simp

lemma example_unsized_audio:
  "ytd_video_info (video_dict [video_format 720 7, audio_format 3, unsized_audio]) ''720p'' 720 =
     Inl (TypeError (quoted ''>'' @ '' not supported between instances of ''
                     @ quoted ''NoneType'' @ '' and '' @ quoted ''int''))"
  by code_simp

section \<open>What a run of the download shows and calls\<close>

lemma download_in_ytd:
  "Download opts u \<in> set (fst (ytd_download_video env url out res inputs)) \<Longrightarrow>
   Download opts u \<in> set (fst (confirm_and_download env url out (ytd_opts env out res) inputs
       :: video_info event list \<times> exn option))"
  by (auto simp: ytd_download_video_def split: sum.splits prod.splits)

lemma download_in_ytdp:
  "Download opts u \<in> set (fst (ytdp_download_video env url out res inputs)) \<Longrightarrow>
   Download opts u \<in> set (fst (confirm_and_download env url out (ytdp_opts env out) inputs
       :: info_result event list \<times> exn option))"
  by (auto simp: ytdp_download_video_def split: sum.splits prod.splits option.splits)

lemma playlist_kind:
  "ytdp_get_video_info env url res b = Inr r \<Longrightarrow> (\<exists>pl. r = Playlist pl) \<longleftrightarrow> b"
  by (auto simp: ytdp_get_video_info_def reraise_def Let_def
           split: sum.splits option.splits if_splits prod.splits)

lemma show_in_ytdp:
  "Show info \<in> set (fst (ytdp_download_video env url out res inputs)) \<Longrightarrow>
   ytdp_get_video_info env url res (is_playlist_url url) = Inr info"
proof -
  assume a: "Show info \<in> set (fst (ytdp_download_video env url out res inputs))"
  have "Show info \<notin> set (fst (confirm_and_download env url out (ytdp_opts env out) inputs
       :: info_result event list \<times> exn option))"
  proof -
    obtain evs x where r: "(confirm_and_download env url out (ytdp_opts env out) inputs
       :: info_result event list \<times> exn option) = (evs, x)"
      by (cases "confirm_and_download env url out (ytdp_opts env out) inputs
       :: info_result event list \<times> exn option")
    from cad_events [OF r] confirmation_events [of inputs, where 'i = info_result]
    show ?thesis using r by auto
  qed
  with a show ?thesis
    by (auto simp: ytdp_download_video_def split: sum.splits prod.splits option.splits)
qed

section \<open>The closest resolution and the suggested one\<close>

lemma find_rev_sorted:
  "sorted xs \<Longrightarrow> find P (rev xs) = Some h \<Longrightarrow>
   P h \<and> h \<in> set xs \<and> (\<forall>k\<in>set xs. P k \<longrightarrow> k \<le> h)"
proof (induction xs)
  case Nil
  then show ?case by simp
next
  case (Cons x xs)
  show ?case
  proof (cases "find P (rev xs)")
    case None
    then have "\<forall>k\<in>set xs. \<not> P k" by (auto simp: find_None_iff)
    moreover from None Cons.prems(2) have "P x \<and> h = x"
      by (auto simp: find_append split: if_splits)
    ultimately show ?thesis by auto
  next
    case (Some y)
    with Cons.prems(2) have "h = y" by (simp add: find_append)
    with Some Cons.IH Cons.prems(1)
    have "P h \<and> h \<in> set xs \<and> (\<forall>k\<in>set xs. P k \<longrightarrow> k \<le> h)" by simp
    moreover have "x \<le> h" using calculation Cons.prems(1) by auto
    ultimately show ?thesis by auto
  qed
qed

lemma hd_sorted_least: "sorted xs \<Longrightarrow> k \<in> set xs \<Longrightarrow> hd xs \<le> k"
  by (cases xs) auto

lemma find_closest_resolution_spec:
  fixes heights :: "int list"
  assumes "heights \<noteq> []"
  shows "\<exists>h. find_closest_resolution heights t = Some h \<and> h \<in> set heights \<and>
           (if \<exists>k\<in>set heights. k \<le> t
            then h \<le> t \<and> (\<forall>k\<in>set heights. k \<le> t \<longrightarrow> k \<le> h)
            else \<forall>k\<in>set heights. h \<le> k)"
proof (cases "find (\<lambda>h. h \<le> t) (rev (sort heights))")
  case None
  then have no: "\<forall>k\<in>set heights. \<not> k \<le> t" by (auto simp: find_None_iff)
  have ne: "sort heights \<noteq> []" using assms by (metis length_0_conv length_sort)
  have r: "find_closest_resolution heights t = Some (hd (sort heights))"
    using None assms by (simp add: find_closest_resolution_def)
  have "hd (sort heights) \<in> set (sort heights)" using ne by (rule hd_in_set)
  then have m: "hd (sort heights) \<in> set heights" by simp
  have "\<forall>k\<in>set heights. hd (sort heights) \<le> k"
    using hd_sorted_least [of "sort heights"] by simp
  then show ?thesis using r m no by auto
next
  case (Some h)
  have r: "find_closest_resolution heights t = Some h"
    using Some assms by (simp add: find_closest_resolution_def)
  from find_rev_sorted [OF _ Some] have "h \<le> t \<and> h \<in> set heights \<and>
      (\<forall>k\<in>set heights. k \<le> t \<longrightarrow> k \<le> h)"
    by simp
  then show ?thesis using r by auto
qed

lemma suggest_height_smallest:
  fixes heights :: "int list"
  assumes "sorted heights" and "heights \<noteq> []"
  shows "suggest_height heights t = hd heights"
proof (cases heights)
  case Nil
  with assms(2) show ?thesis by simp
next
  case (Cons x xs)
  show ?thesis
  proof (cases "x \<le> t")
    case True
    then show ?thesis using Cons by (simp add: suggest_height_def)
  next
    case False
    then have "\<forall>k\<in>set xs. \<not> k \<le> t" using assms(1) Cons by auto
    then have "find (\<lambda>h. h \<le> t) xs = None" by (auto simp: find_None_iff)
    then show ?thesis using Cons False by (simp add: suggest_height_def)
  qed
qed

lemma no_video_format_message:
  "available_heights formats \<noteq> [] \<Longrightarrow>
   no_video_format res t formats =
     ValueError (''No format found for '' @ res @ ''. Available resolutions: ''
                 @ show_list (available_heights formats) @ ''. Try ''
                 @ show_int (hd (available_heights formats)) @ ''p'')"
proof -
  assume a: "available_heights formats \<noteq> []"
  have "sorted (available_heights formats)" by (simp add: available_heights_def)
  from suggest_height_smallest [OF this a] a show ?thesis
    by (simp add: no_video_format_def Let_def)
qed

lemma set_truthy_height: "h \<in> set (truthy_height f) \<longleftrightarrow> defined_height f = Some h"
  by (auto simp: truthy_height_def defined_height_def get_def split: option.splits pyval.splits)

lemma set_available_heights:
  "set (available_heights formats) = {h. \<exists>f\<in>set formats. defined_height f = Some h}"
  by (auto simp: available_heights_def set_truthy_height)

lemma closest_fit_when_returned:
  assumes "ytdp_video_info info t = Inr r"
  shows "\<exists>h v. find_closest_resolution (available_heights (get (info_formats info) [])) t = Some h \<and>
               closest_video h (get (info_formats info) []) = Inr (Some v) \<and>
               resolution r = show_int h @ ''p''"
  using assms
  by (auto simp: ytdp_video_info_def Let_def split: if_splits option.splits sum.splits)

lemma no_video_format_raised:
  assumes "get (info_formats info) [] \<noteq> []"
    and "\<forall>g\<in>set (get (info_formats info) []). \<not> qualifies t g"
    and "best_audio (get (info_formats info) []) = Inr a"
  shows "ytd_video_info info res t = Inl (no_video_format res t (get (info_formats info) []))"
proof -
  from best_video_invariant [of t "get (info_formats info) []"] assms(2)
  have "best_video t (get (info_formats info) []) = Inr None" by auto
  then show ?thesis using assms(1,3) by (simp add: ytd_video_info_def)
qed

section \<open>The gate of both scripts\<close>

lemma gated_failed:
  assumes "\<And>inputs. run inputs = ([], x)"
  shows "gated run env out opts url"
  unfolding gated_def by (simp add: assms reprompted_def)

lemma gated_shown:
  fixes run :: "string list \<Rightarrow> 'i event list \<times> exn option"
  assumes run: "\<And>inputs. run inputs =
     (case confirm_and_download env url out opts inputs of (evs, r) \<Rightarrow> (Show vi # evs, r))"
  shows "gated run env out opts url"
proof -
  let ?cad = "\<lambda>inputs. (confirm_and_download env url out opts inputs :: 'i event list \<times> exn option)"
  have fst_run: "fst (run inputs) = Show vi # fst (?cad inputs)" for inputs
    by (simp add: run split: prod.splits)
  have snd_run: "snd (run inputs) = snd (?cad inputs)" for inputs
    by (simp add: run split: prod.splits)
  have p1: "opts' = opts \<and> u = url \<and> Prompt \<in> set before \<and> Mkdir out \<in> set before \<and>
          Prompt \<notin> set after \<and>
          (\<exists>pre r post. inputs = pre @ r # post \<and> (\<forall>p\<in>set pre. \<not> valid_response p) \<and>
                        lower r = ''y'')"
    if a: "fst (run inputs) = before @ Download opts' u # after" for inputs before opts' u after
  proof -
    from a have e: "Show vi # fst (?cad inputs) = before @ Download opts' u # after"
      by (simp add: fst_run)
    then obtain b' where b: "before = Show vi # b'"
      and c: "fst (?cad inputs) = b' @ Download opts' u # after"
      by (cases before) auto
    from cad_order [OF c] have "Prompt \<in> set before" "Prompt \<notin> set after"
      using b by simp_all
    moreover from cad_mkdir_before [OF c] have "Mkdir out \<in> set before" using b by simp
    moreover have "Download opts' u \<in> set (fst (?cad inputs))" using c by simp
    from cad_download [OF this]
    have "opts' = opts \<and> u = url \<and>
         (\<exists>pre r post. inputs = pre @ r # post \<and> (\<forall>p\<in>set pre. \<not> valid_response p) \<and>
                       lower r = ''y'')" .
    ultimately show ?thesis by blast
  qed
  have p2: "(\<forall>o' u. Download o' u \<notin> set (fst (run (pre @ r # post)))) \<and>
          (\<forall>d. Mkdir d \<notin> set (fst (run (pre @ r # post)))) \<and>
          (Prompt \<in> set (fst (run (pre @ r # post))) \<longrightarrow> snd (run (pre @ r # post)) = None)"
    if "(\<forall>p\<in>set pre. \<not> valid_response p) \<and> lower r = ''n''" for pre r post
    using cad_no [of pre r env url out opts post, where 'i = 'i] that
    by (simp add: fst_run snd_run)
  have p3: "Mkdir out \<in> set (fst (run (pre @ r # post))) \<and>
          (if mkdir env out = None
           then Download opts url \<in> set (fst (run (pre @ r # post)))
           else \<forall>o' u. Download o' u \<notin> set (fst (run (pre @ r # post))))"
    if h: "(\<forall>p\<in>set pre. \<not> valid_response p) \<and> lower r = ''y''" for pre r post
  proof (cases "mkdir env out = None")
    case True
    then show ?thesis
      using cad_yes [of pre r env out opts url post, where 'i = 'i]
        cad_yes_mkdir [of pre r out env url opts post, where 'i = 'i] h
      by (simp add: fst_run)
  next
    case False
    then show ?thesis
      using cad_yes_mkdir [of pre r out env url opts post, where 'i = 'i] h
      by (simp add: fst_run)
  qed
  have p4: "run (r # rest) = reprompted (run rest)" if "\<not> valid_response r" for r rest
  proof -
    obtain evs x where c: "?cad rest = (evs, x)" by (cases "?cad rest")
    have "?cad (r # rest) =
        (case ?cad rest of (evs, x) \<Rightarrow> (Prompt # Invalid_response # evs, x))"
      by (rule cad_invalid [OF that])
    with c have "?cad (r # rest) = (Prompt # Invalid_response # evs, x)" by simp
    with c show ?thesis by (simp add: run reprompted_def)
  qed
  show ?thesis unfolding gated_def using p1 p2 p3 p4 by blast
qed

lemma ytd_run:
  "(\<exists>x. \<forall>inputs. ytd_download_video env url out res inputs = ([], x)) \<or>
   (\<exists>vi. \<forall>inputs. ytd_download_video env url out res inputs =
      (case confirm_and_download env url out (ytd_opts env out res) inputs of
         (evs, r) \<Rightarrow> (Show vi # evs, r)))"
proof (cases "ytd_get_video_info env url res")
  case (Inl e)
  then show ?thesis by (simp add: ytd_download_video_def)
next
  case (Inr vi)
  show ?thesis
  proof (cases "py_gt (duration vi) (PyInt 0)")
    case (Inl e)
    with Inr show ?thesis by (simp add: ytd_download_video_def)
  next
    case shown: (Inr b)
    with Inr have "\<forall>inputs. ytd_download_video env url out res inputs =
      (case confirm_and_download env url out (ytd_opts env out res) inputs of
         (evs, r) \<Rightarrow> (Show vi # evs, r))"
      by (simp add: ytd_download_video_def)
    then show ?thesis by blast
  qed
qed

lemma ytdp_run:
  "(\<exists>x. \<forall>inputs. ytdp_download_video env url out res inputs = ([], x)) \<or>
   (\<exists>vi. \<forall>inputs. ytdp_download_video env url out res inputs =
      (case confirm_and_download env url out (ytdp_opts env out) inputs of
         (evs, r) \<Rightarrow> (Show vi # evs, r)))"
proof (cases "ytdp_get_video_info env url res (is_playlist_url url)")
  case (Inl e)
  then show ?thesis by (simp add: ytdp_download_video_def)
next
  case (Inr vi)
  show ?thesis
  proof (cases "ytdp_display vi")
    case (Some e)
    with Inr show ?thesis by (simp add: ytdp_download_video_def)
  next
    case None
    with Inr have "\<forall>inputs. ytdp_download_video env url out res inputs =
      (case confirm_and_download env url out (ytdp_opts env out) inputs of
         (evs, r) \<Rightarrow> (Show vi # evs, r))"
      by (simp add: ytdp_download_video_def)
    then show ?thesis by blast
  qed
qed

lemma example_uppercase:
  "ytd_download_video example_env ''v/a'' ''out'' ''1080p'' [''Y'', ''n''] =
     ([Show \<lparr>title = ''Clip'', duration = PyInt 90, size_bytes = 520000000,
             resolution = ''1080p''\<rparr>,
       Prompt, Mkdir ''out'', Download (ytd_opts example_env ''out'' ''1080p'') ''v/a'',
       Completed ''out''], None)"
  by code_simp

lemma example_responses:
  "\<not> valid_response ''maybe''" "lower ''Y'' = ''y''" "lower ''N'' = ''n''"
  by (simp_all add: valid_response_def lower_def lower_char_def)

lemma example_prompted:
  "Prompt \<in> set (fst (ytd_download_video example_env ''v/a'' ''out'' ''1080p'' inputs))"
  "Prompt \<in> set (fst (ytdp_download_video example_env ''playlist/p'' ''out'' ''1080p'' inputs))"
  "Prompt \<in> set (fst (ytd_download_video readonly_env ''v/a'' ''out'' ''1080p'' inputs))"
proof -
  have r: "ytd_get_video_info readonly_env ''v/a'' ''1080p'' =
     Inr \<lparr>title = ''Clip'', duration = PyInt 90, size_bytes = 520000000,
          resolution = ''1080p''\<rparr>"
    by code_simp
  obtain evs where "fst (confirmation inputs :: video_info event list \<times> (exn + string))
      = Prompt # evs"
    using confirmation_head [of inputs, where 'i = video_info] by blast
  moreover obtain evs' where "fst (confirmation inputs :: info_result event list \<times> (exn + string))
      = Prompt # evs'"
    using confirmation_head [of inputs, where 'i = info_result] by blast
  ultimately show
    "Prompt \<in> set (fst (ytd_download_video example_env ''v/a'' ''out'' ''1080p'' inputs))"
    "Prompt \<in> set (fst (ytdp_download_video example_env ''playlist/p'' ''out'' ''1080p'' inputs))"
    "Prompt \<in> set (fst (ytd_download_video readonly_env ''v/a'' ''out'' ''1080p'' inputs))"
    using example_ytd_a example_playlist r
    by (auto simp: ytd_download_video_def ytdp_download_video_def ytdp_display_def
          is_playlist_url_def confirm_and_download_def
          split: prod.splits sum.splits option.splits)
qed

section \<open>The claims\<close>

text \<open>
  C2. Selection in ytd.py (strict, at most the target): the video loop never raises; it
  selects nothing exactly when no video-capable format has a defined height at most the
  target; and a selected format is a video-capable format of the list whose defined
  height is the largest such height, and is the first format of the list that is
  video-capable and has that height.
\<close>

theorem strict_selection:
  "\<exists>r. best_video t formats = Inr r \<and>
     (r = None \<longleftrightarrow> (\<forall>g\<in>set formats. \<not> qualifies t g)) \<and>
     (\<forall>f. r = Some f \<longrightarrow>
        f \<in> set formats \<and> has_video f \<and>
        (\<exists>h. defined_height f = Some h \<and> h \<le> t \<and>
             (\<forall>g\<in>set formats. \<forall>k. has_video g \<and> defined_height g = Some k \<and> k \<le> t
                  \<longrightarrow> k \<le> h) \<and>
             find (\<lambda>g. has_video g \<and> defined_height g = Some h) formats = Some f))"
proof -
  from best_video_invariant [of t formats] obtain r where r: "best_video t formats = Inr r"
    and none: "r = None \<longleftrightarrow> (\<forall>g\<in>set formats. \<not> qualifies t g)"
    and some: "\<And>f. r = Some f \<Longrightarrow>
        \<exists>h. defined_height f = Some h \<and> qualifies t f \<and>
             (\<forall>g\<in>set formats. \<forall>k. qualifies t g \<and> defined_height g = Some k \<longrightarrow> k \<le> h) \<and>
             find (\<lambda>g. qualifies t g \<and> defined_height g = Some h) formats = Some f"
    by blast
  have "f \<in> set formats \<and> has_video f \<and>
        (\<exists>h. defined_height f = Some h \<and> h \<le> t \<and>
             (\<forall>g\<in>set formats. \<forall>k. has_video g \<and> defined_height g = Some k \<and> k \<le> t
                  \<longrightarrow> k \<le> h) \<and>
             find (\<lambda>g. has_video g \<and> defined_height g = Some h) formats = Some f)"
    if "r = Some f" for f
  proof -
    from some [OF that] obtain h where h: "defined_height f = Some h" "qualifies t f"
      "\<forall>g\<in>set formats. \<forall>k. qualifies t g \<and> defined_height g = Some k \<longrightarrow> k \<le> h"
      "find (\<lambda>g. qualifies t g \<and> defined_height g = Some h) formats = Some f"
      by blast
    have le: "h \<le> t" and hv: "has_video f" using h(1,2) by (auto simp: qualifies_def)
    have same: "(\<lambda>g. qualifies t g \<and> defined_height g = Some h) =
                (\<lambda>g. has_video g \<and> defined_height g = Some h)"
      using le by (auto simp: qualifies_def)
    have mem: "f \<in> set formats" using h(4) by (auto simp: find_Some_iff)
    have "\<forall>g\<in>set formats. \<forall>k. has_video g \<and> defined_height g = Some k \<and> k \<le> t \<longrightarrow> k \<le> h"
      using h(3) by (auto simp: qualifies_def)
    then show ?thesis using h(1,4) le hv mem same by auto
  qed
  then show ?thesis using r none by blast
qed

theorem strict_selection_witness:
  "best_video 1080 tied_formats = Inr (Some (video_format 1080 1)) \<and>
   video_format 1080 1 \<in> set tied_formats \<and> has_video (video_format 1080 1) \<and>
   defined_height (video_format 1080 1) = Some 1080 \<and>
   find (\<lambda>g. has_video g \<and> defined_height g = Some 1080) tied_formats
     = Some (video_format 1080 1)"
proof -
  have d: "defined_height (video_format 1080 1) = Some 1080"
    by (simp add: defined_height_def video_format_def)
  show ?thesis
    using strict_selection [of 1080 tied_formats] example_tied d by auto
qed

text \<open>
  C6. The format constraint of the download: every download call of ytdp.py carries the
  fixed constraint for heights up to 144, whatever the resolution argument; every
  download call of ytd.py carries the constraint built from the resolution argument
  without its last character.
\<close>

theorem download_format_selector:
  "(Download opts u \<in> set (fst (ytdp_download_video env url out res inputs)) \<longrightarrow>
      format_selector opts = ''bestvideo[height<=144]+bestaudio/best'') \<and>
   (Download opts' u' \<in> set (fst (ytd_download_video env url out res inputs)) \<longrightarrow>
      format_selector opts' = ''bestvideo[height<='' @ butlast res @ '']+bestaudio/best'')"
proof (intro conjI impI)
  assume "Download opts u \<in> set (fst (ytdp_download_video env url out res inputs))"
  from cad_download [OF download_in_ytdp [OF this]] have "opts = ytdp_opts env out" by simp
  then show "format_selector opts = ''bestvideo[height<=144]+bestaudio/best''"
    by (simp add: ytdp_opts_def)
next
  assume "Download opts' u' \<in> set (fst (ytd_download_video env url out res inputs))"
  from cad_download [OF download_in_ytd [OF this]] have "opts' = ytd_opts env out res" by simp
  then show "format_selector opts' = ''bestvideo[height<='' @ butlast res @ '']+bestaudio/best''"
    by (simp add: ytd_opts_def)
qed

theorem download_format_selector_witness:
  "Download (ytdp_opts example_env ''out'') ''v/a''
     \<in> set (fst (ytdp_download_video example_env ''v/a'' ''out'' ''1080p'' [''y''])) \<and>
   format_selector (ytdp_opts example_env ''out'') = ''bestvideo[height<=144]+bestaudio/best'' \<and>
   Download (ytd_opts example_env ''out'' ''1080p'') ''v/a''
     \<in> set (fst (ytd_download_video example_env ''v/a'' ''out'' ''1080p'' [''y''])) \<and>
   format_selector (ytd_opts example_env ''out'' ''1080p'') =
     ''bestvideo[height<=1080]+bestaudio/best''"
proof -
  have a: "Download (ytdp_opts example_env ''out'') ''v/a''
     \<in> set (fst (ytdp_download_video example_env ''v/a'' ''out'' ''1080p'' [''y'']))"
    by (simp add: example_run_p)
  have b: "Download (ytd_opts example_env ''out'' ''1080p'') ''v/a''
     \<in> set (fst (ytd_download_video example_env ''v/a'' ''out'' ''1080p'' [''y'']))"
    by (simp add: example_run)
  show ?thesis
    using download_format_selector [of "ytdp_opts example_env ''out''" "''v/a''" example_env
        "''v/a''" "''out''" "''1080p''" "[''y'']" "ytd_opts example_env ''out'' ''1080p''" "''v/a''"]
      a b by simp
qed

text \<open>
  C9. No formats: when the dictionary has no formats (the key is absent or the list is
  empty), both scripts raise the error "No formats available for this video", which
  leaves \<^verbatim>\<open>get_video_info\<close> wrapped in its "Failed to get ..." exception; no result is
  returned.
\<close>

theorem no_formats_available:
  assumes "get (info_formats info) [] = []"
  shows "ytd_video_info info res t = Inl (ValueError ''No formats available for this video'') \<and>
         ytdp_video_info info t = Inl (ValueError ''No formats available for this video'') \<and>
         (py_int env (butlast res) = Inr t \<and> extract_info env False url = Inr (Some info) \<longrightarrow>
            ytd_get_video_info env url res =
              Inl (Exception ''Failed to get video info: No formats available for this video'') \<and>
            ytdp_get_single env url res =
              Inl (Exception ''Failed to get info: No formats available for this video'') \<and>
            ytdp_get_video_info env url res False =
              Inl (Exception ''Failed to get info: No formats available for this video''))"
  using assms
  by (simp add: ytd_video_info_def ytdp_video_info_def ytd_get_video_info_def
        ytdp_get_single_def ytdp_get_video_info_def reraise_def)

theorem no_formats_available_witness:
  "get (info_formats (video_dict [])) [] = [] \<and>
   py_int example_env (butlast ''720p'') = Inr 720 \<and>
   extract_info example_env False ''v/c'' = Inr (Some (video_dict [])) \<and>
   ytd_video_info (video_dict []) ''720p'' 720 =
     Inl (ValueError ''No formats available for this video'') \<and>
   ytdp_video_info (video_dict []) 720 =
     Inl (ValueError ''No formats available for this video'') \<and>
   ytd_get_video_info example_env ''v/c'' ''720p'' =
     Inl (Exception ''Failed to get video info: No formats available for this video'') \<and>
   ytdp_get_video_info example_env ''v/c'' ''720p'' False =
     Inl (Exception ''Failed to get info: No formats available for this video'')"
proof -
  have a: "get (info_formats (video_dict [])) [] = []"
    by (simp add: video_dict_def get_def)
  have b: "py_int example_env (butlast ''720p'') = Inr 720"
    by (simp add: example_env_def decimal_def)
  have c: "extract_info example_env False ''v/c'' = Inr (Some (video_dict []))"
    by (simp add: example_env_def example_provider_def)
  show ?thesis
    using no_formats_available [OF a, of "''720p''" 720 example_env "''v/c''"] a b c by simp
qed

text \<open>
  C10. Routing in ytdp.py: a URL is handled as a playlist exactly when it contains
  \<^verbatim>\<open>playlist\<close> or \<^verbatim>\<open>&list=\<close> as a substring, and what a run shows is a playlist summary
  exactly for these URLs. A single video whose URL contains the word is therefore
  handled as a playlist.
\<close>

theorem playlist_routing:
  "(is_playlist_url url \<longleftrightarrow>
      (\<exists>p q. url = p @ ''playlist'' @ q) \<or> (\<exists>p q. url = p @ ''&list='' @ q)) \<and>
   (Show info \<in> set (fst (ytdp_download_video env url out res inputs)) \<longrightarrow>
      ((\<exists>pl. info = Playlist pl) \<longleftrightarrow>
         (\<exists>p q. url = p @ ''playlist'' @ q) \<or> (\<exists>p q. url = p @ ''&list='' @ q)))"
proof -
  have iff: "is_playlist_url url \<longleftrightarrow>
      (\<exists>p q. url = p @ ''playlist'' @ q) \<or> (\<exists>p q. url = p @ ''&list='' @ q)"
    unfolding is_playlist_url_def contains_iff ..
  moreover have "(\<exists>pl. info = Playlist pl) \<longleftrightarrow> is_playlist_url url"
    if "Show info \<in> set (fst (ytdp_download_video env url out res inputs))"
    using playlist_kind [OF show_in_ytdp [OF that]] .
  ultimately show ?thesis by blast
qed

theorem playlist_routing_witness:
  "Show (Playlist example_playlist_info)
     \<in> set (fst (ytdp_download_video example_env ''playlist/p'' ''out'' ''1080p''
                   [''maybe'', ''Y'', ''n''])) \<and>
   is_playlist_url ''playlist/p'' \<and>
   ((\<exists>p q. ''playlist/p'' = p @ ''playlist'' @ q) \<or> (\<exists>p q. ''playlist/p'' = p @ ''&list='' @ q)) \<and>
   is_playlist_url ''v/playlist-tips'' \<and>
   ytdp_download_video example_env ''v/playlist-tips'' ''out'' ''1080p'' [''y''] =
     ([], Some (Exception ''Download failed: Failed to get info: No videos found in playlist''))"
proof -
  have a: "Show (Playlist example_playlist_info)
     \<in> set (fst (ytdp_download_video example_env ''playlist/p'' ''out'' ''1080p''
                   [''maybe'', ''Y'', ''n'']))"
    by (simp add: example_playlist_run)
  have b: "is_playlist_url ''playlist/p''" "is_playlist_url ''v/playlist-tips''"
    by (simp_all add: is_playlist_url_def)
  have c: "ytdp_download_video example_env ''v/playlist-tips'' ''out'' ''1080p'' [''y''] =
     ([], Some (Exception ''Download failed: Failed to get info: No videos found in playlist''))"
    by code_simp
  show ?thesis
    using playlist_routing [of "''playlist/p''" "Playlist example_playlist_info" example_env
        "''out''" "''1080p''" "[''maybe'', ''Y'', ''n'']"] a b c
    by simp
qed

text \<open>
  C4 at a playlist of two entries with URLs whose videos are both retrieved, the second
  without a duration: no entry fails, yet the summary lists two videos and one skipped
  video. The second video is appended, and then the addition of its duration raises
  inside the same \<^verbatim>\<open>try\<close>, so it is recorded as skipped too.
\<close>

theorem none_duration_counts:
  "length live_playlist_entries = 2 \<and>
   ytdp_get_single example_env ''v/a'' ''1080p'' = Inr clip_video \<and>
   ytdp_get_single example_env ''v/live'' ''1080p'' = Inr live_video \<and>
   ytdp_get_video_info example_env ''playlist/q'' ''1080p'' True =
     Inr (Playlist live_playlist_info) \<and>
   length (videos live_playlist_info) = 2 \<and>
   length (skipped_videos live_playlist_info) = 1"
  by (simp add: example_clip example_single_live example_live_playlist
        live_playlist_entries_def live_playlist_info_def)

text \<open>
  C5 at the same playlist: the retrieval of the second video succeeds and the video is
  among the videos of the summary, yet the skipped videos hold it, with the message of
  the addition that failed; the total duration leaves it out.
\<close>

theorem none_duration_skipped:
  "ytdp_get_video_info example_env ''playlist/q'' ''1080p'' True =
     Inr (Playlist live_playlist_info) \<and>
   ytdp_get_single example_env ''v/live'' ''1080p'' = Inr live_video \<and>
   duration live_video = PyNone \<and>
   live_video \<in> set (videos live_playlist_info) \<and>
   map skipped_url (skipped_videos live_playlist_info) = [''v/live''] \<and>
   map reason (skipped_videos live_playlist_info) =
     [''unsupported operand type(s) for +=: '' @ quoted ''int'' @ '' and ''
      @ quoted ''NoneType''] \<and>
   total_size live_playlist_info = sum_list (map size_bytes (videos live_playlist_info)) \<and>
   total_duration live_playlist_info = 90"
  by (simp add: example_single_live example_live_playlist live_playlist_info_def
        live_video_def clip_video_def)

text \<open>
  C8 at formats whose size is \<^verbatim>\<open>None\<close>: with one video format of unknown size the sum of
  the sizes raises, and with a second audio-only format of unknown size the comparison
  of the audio sizes raises; no total is reported, where a missing size should count as
  0. With sizes that are numbers the totals are as claimed: 520000000 on the example of
  the specification, and on a list with three audio-only formats the first of the
  largest size is added to the video size.
\<close>

theorem none_size_not_defaulted:
  "ytd_video_info (video_dict [unsized_video 720]) ''720p'' 720 =
     Inl (TypeError (''unsupported operand type(s) for +: '' @ quoted ''NoneType''
                     @ '' and '' @ quoted ''int'')) \<and>
   ytd_video_info (video_dict [video_format 720 7, audio_format 3, unsized_audio]) ''720p'' 720 =
     Inl (TypeError (quoted ''>'' @ '' not supported between instances of ''
                     @ quoted ''NoneType'' @ '' and '' @ quoted ''int'')) \<and>
   ytd_video_info (video_dict spec_example) ''1080p'' 1080 =
     Inr \<lparr>title = ''Clip'', duration = PyInt 90, size_bytes = 520000000,
          resolution = ''1080p''\<rparr> \<and>
   ytd_video_info (video_dict tied_formats) ''1080p'' 1080 =
     Inr \<lparr>title = ''Clip'', duration = PyInt 90, size_bytes = 6, resolution = ''1080p''\<rparr>"
  by (simp add: example_unsized_video example_unsized_audio example_spec example_tied_sizes)

text \<open>
  C7, as stated, fails twice. The response \<^verbatim>\<open>Y\<close> is neither \<^verbatim>\<open>y\<close> nor \<^verbatim>\<open>n\<close>, yet it is not
  answered by a new prompt: the download is called at once and the \<^verbatim>\<open>n\<close> after it is
  never read. And the response \<^verbatim>\<open>y\<close> does not reach the download call when the output
  directory cannot be created: the run ends after \<^verbatim>\<open>mkdir\<close> with its exception.
\<close>

theorem gate_as_stated_fails:
  "''Y'' \<noteq> ''y'' \<and> ''Y'' \<noteq> ''n'' \<and>
   ytd_download_video example_env ''v/a'' ''out'' ''1080p'' [''Y'', ''n''] =
     ([Show \<lparr>title = ''Clip'', duration = PyInt 90, size_bytes = 520000000,
             resolution = ''1080p''\<rparr>,
       Prompt, Mkdir ''out'', Download (ytd_opts example_env ''out'' ''1080p'') ''v/a'',
       Completed ''out''], None) \<and>
   ytd_download_video readonly_env ''v/a'' ''out'' ''1080p'' [''y''] =
     ([Show \<lparr>title = ''Clip'', duration = PyInt 90, size_bytes = 520000000,
             resolution = ''1080p''\<rparr>,
       Prompt, Mkdir ''out''],
      Some (Exception (''Download failed: [Errno 13] Permission denied: '' @ quoted ''out'')))"
  by (simp add: example_uppercase example_readonly)

text \<open>
  C7, amended: responses are compared after lower-casing, and the directory is created
  before the download. In both scripts a download call stands after a prompt and after
  the creation of the directory, and the responses then hold one that lower-cases to
  \<^verbatim>\<open>y\<close> preceded by invalid responses only; a first valid response that lower-cases to
  \<^verbatim>\<open>n\<close> ends the run with no download and no directory; one that lower-cases to \<^verbatim>\<open>y\<close>
  creates the directory and then calls the download, unless creating the directory
  raises, when no download is called; any other response only adds a prompt and its
  notice.
\<close>

theorem confirmation_gate:
  "gated (ytd_download_video env url out res) env out (ytd_opts env out res) url \<and>
   gated (ytdp_download_video env url out res) env out (ytdp_opts env out) url"
proof
  show "gated (ytd_download_video env url out res) env out (ytd_opts env out res) url"
    using ytd_run [of env url out res] by (auto intro: gated_failed gated_shown)
  show "gated (ytdp_download_video env url out res) env out (ytdp_opts env out) url"
    using ytdp_run [of env url out res] by (auto intro: gated_failed gated_shown)
qed

theorem confirmation_gate_witness:
  "\<not> valid_response ''maybe'' \<and> lower ''Y'' = ''y'' \<and> lower ''N'' = ''n'' \<and>
   mkdir example_env ''out'' = None \<and>
   Mkdir ''out''
     \<in> set (fst (ytd_download_video example_env ''v/a'' ''out'' ''1080p'' [''maybe'', ''Y'', ''n''])) \<and>
   Download (ytd_opts example_env ''out'' ''1080p'') ''v/a''
     \<in> set (fst (ytd_download_video example_env ''v/a'' ''out'' ''1080p'' [''maybe'', ''Y'', ''n''])) \<and>
   Download (ytdp_opts example_env ''out'') ''playlist/p''
     \<in> set (fst (ytdp_download_video example_env ''playlist/p'' ''out'' ''1080p''
                   [''maybe'', ''Y'', ''n''])) \<and>
   mkdir readonly_env ''out'' \<noteq> None \<and>
   Mkdir ''out''
     \<in> set (fst (ytd_download_video readonly_env ''v/a'' ''out'' ''1080p'' [''maybe'', ''Y'', ''n''])) \<and>
   (\<forall>o' u. Download o' u
     \<notin> set (fst (ytd_download_video readonly_env ''v/a'' ''out'' ''1080p'' [''maybe'', ''Y'', ''n'']))) \<and>
   (\<forall>o' u. Download o' u
     \<notin> set (fst (ytd_download_video example_env ''v/a'' ''out'' ''1080p'' [''maybe'', ''N'', ''y'']))) \<and>
   (\<forall>d. Mkdir d
     \<notin> set (fst (ytd_download_video example_env ''v/a'' ''out'' ''1080p'' [''maybe'', ''N'', ''y'']))) \<and>
   snd (ytd_download_video example_env ''v/a'' ''out'' ''1080p'' [''maybe'', ''N'', ''y'']) = None \<and>
   ytd_download_video example_env ''v/a'' ''out'' ''1080p'' [''maybe'', ''N'', ''y''] =
     reprompted (ytd_download_video example_env ''v/a'' ''out'' ''1080p'' [''N'', ''y''])"
proof -
  have m: "mkdir example_env ''out'' = None" by (simp add: example_env_def)
  have m': "mkdir readonly_env ''out'' \<noteq> None" by (simp add: readonly_env_def)
  have pre: "\<forall>p\<in>set [''maybe'']. \<not> valid_response p" using example_responses(1) by simp
  note G = confirmation_gate [of example_env "''v/a''" "''out''" "''1080p''"]
  note P = confirmation_gate [of example_env "''playlist/p''" "''out''" "''1080p''"]
  note R = confirmation_gate [of readonly_env "''v/a''" "''out''" "''1080p''"]
  from G have g: "gated (ytd_download_video example_env ''v/a'' ''out'' ''1080p'') example_env
      ''out'' (ytd_opts example_env ''out'' ''1080p'') ''v/a''" by simp
  from P have p: "gated (ytdp_download_video example_env ''playlist/p'' ''out'' ''1080p'')
      example_env ''out'' (ytdp_opts example_env ''out'') ''playlist/p''" by simp
  from R have r: "gated (ytd_download_video readonly_env ''v/a'' ''out'' ''1080p'') readonly_env
      ''out'' (ytd_opts readonly_env ''out'' ''1080p'') ''v/a''" by simp
  have y1: "Mkdir ''out''
     \<in> set (fst (ytd_download_video example_env ''v/a'' ''out'' ''1080p'' ([''maybe''] @ ''Y'' # [''n''])))
     \<and> Download (ytd_opts example_env ''out'' ''1080p'') ''v/a''
     \<in> set (fst (ytd_download_video example_env ''v/a'' ''out'' ''1080p'' ([''maybe''] @ ''Y'' # [''n''])))"
    using g pre example_responses(2) m example_prompted(1) unfolding gated_def by meson
  have y2: "Download (ytdp_opts example_env ''out'') ''playlist/p''
     \<in> set (fst (ytdp_download_video example_env ''playlist/p'' ''out'' ''1080p''
                   ([''maybe''] @ ''Y'' # [''n''])))"
    using p pre example_responses(2) m example_prompted(2) unfolding gated_def by meson
  have y3: "Mkdir ''out''
     \<in> set (fst (ytd_download_video readonly_env ''v/a'' ''out'' ''1080p'' ([''maybe''] @ ''Y'' # [''n''])))
     \<and> (\<forall>o' u. Download o' u
     \<notin> set (fst (ytd_download_video readonly_env ''v/a'' ''out'' ''1080p'' ([''maybe''] @ ''Y'' # [''n'']))))"
    using r pre example_responses(2) m' example_prompted(3) unfolding gated_def by meson
  have n1: "(\<forall>o' u. Download o' u
     \<notin> set (fst (ytd_download_video example_env ''v/a'' ''out'' ''1080p'' ([''maybe''] @ ''N'' # [''y''])))) \<and>
     (\<forall>d. Mkdir d
     \<notin> set (fst (ytd_download_video example_env ''v/a'' ''out'' ''1080p'' ([''maybe''] @ ''N'' # [''y''])))) \<and>
     snd (ytd_download_video example_env ''v/a'' ''out'' ''1080p'' ([''maybe''] @ ''N'' # [''y''])) = None"
    using g pre example_responses(3) example_prompted(1) unfolding gated_def by meson
  have r1: "ytd_download_video example_env ''v/a'' ''out'' ''1080p'' (''maybe'' # [''N'', ''y'']) =
     reprompted (ytd_download_video example_env ''v/a'' ''out'' ''1080p'' [''N'', ''y''])"
    using g example_responses(1) unfolding gated_def by blast
  show ?thesis using example_responses m m' y1 y2 y3 n1 r1 by simp
qed

text \<open>
  C1 at a list with preview images at 720 and a video format at 1080, for the target 720:
  the list has a video-capable format with a defined height, the closest height is
  720, no video-capable format has it, and reading the size of the missing format
  raises; nothing is returned.
\<close>

theorem closest_fit_crash:
  "video_format 1080 5 \<in> set images_then_video \<and> has_video (video_format 1080 5) \<and>
   defined_height (video_format 1080 5) = Some 1080 \<and>
   available_heights images_then_video = [720, 1080] \<and>
   find_closest_resolution [720, 1080] 720 = Some 720 \<and>
   closest_video 720 images_then_video = Inr None \<and>
   ytdp_video_info (video_dict images_then_video) 720 =
     Inl (AttributeError (quoted ''NoneType'' @ '' object has no attribute '' @ quoted ''get'')) \<and>
   ytdp_get_single example_env ''v/d'' ''720p'' =
     Inl (Exception (''Failed to get info: '' @ quoted ''NoneType''
                     @ '' object has no attribute '' @ quoted ''get''))"
  by code_simp

text \<open>
  C3 at a list with preview images at 360 and 480 only, for the target 720: the error
  lists both heights and suggests 360, the smallest, where 480 is the largest height not
  above the target.
\<close>

theorem suggestion_is_smallest:
  "available_heights images_only = [360, 480] \<and>
   suggest_height [360, 480] 720 = 360 \<and>
   ytd_video_info (video_dict images_only) ''720p'' 720 =
     Inl (ValueError ''No format found for 720p. Available resolutions: [360, 480]. Try 360p'') \<and>
   ytd_get_video_info example_env ''v/e'' ''720p'' =
     Inl (Exception ''Failed to get video info: No format found for 720p. Available resolutions: [360, 480]. Try 360p'')"
  by code_simp

end
